theory Spec2Isabelle
  imports Complex_Main
begin

section \<open>JavaScript values used by the timetable pipeline\<close>

text \<open>
  Strings are lists of code units; the model covers the ASCII range, where the
  JavaScript string methods used by the sources are given exactly.  The white space
  of \<^verbatim>\<open>\s\<close> and \<^verbatim>\<open>trim()\<close> is tab, line feed, vertical tab, form feed,
  carriage return and space; \<^verbatim>\<open>\d\<close> is \<^verbatim>\<open>0-9\<close>.  Code units outside
  ASCII are neither white space nor letters here.

  An object used as a dictionary (\<^verbatim>\<open>Record<string, T>\<close>) is a partial map over its
  own keys, together with the names that every plain object inherits from
  \<^verbatim>\<open>Object.prototype\<close> where the code depends on them; an optional value
  (\<^verbatim>\<open>undefined\<close>, \<^verbatim>\<open>null\<close>) is \<open>None\<close>.
\<close>

definition isSpace :: "char \<Rightarrow> bool" where
  "isSpace c = (c \<in> set [CHR 0x09, CHR 0x0A, CHR 0x0B, CHR 0x0C, CHR 0x0D, CHR '' ''])"

definition isDigit :: "char \<Rightarrow> bool" where
  "isDigit c = (c \<in> set ''0123456789'')"

definition isUpper :: "char \<Rightarrow> bool" where
  "isUpper c = (c \<in> set ''ABCDEFGHIJKLMNOPQRSTUVWXYZ'')"

definition isLower :: "char \<Rightarrow> bool" where
  "isLower c = (c \<in> set ''abcdefghijklmnopqrstuvwxyz'')"

definition lowerChar :: "char \<Rightarrow> char" where
  "lowerChar c = (if isUpper c then char_of (of_char c + (32::nat)) else c)"

definition upperChar :: "char \<Rightarrow> char" where
  "upperChar c = (if isLower c then char_of (of_char c - (32::nat)) else c)"

text \<open>\<^verbatim>\<open>s.toLowerCase()\<close> and \<^verbatim>\<open>s.toUpperCase()\<close>.\<close>

definition toLowerCase :: "string \<Rightarrow> string" where
  "toLowerCase s = map lowerChar s"

definition toUpperCase :: "string \<Rightarrow> string" where
  "toUpperCase s = map upperChar s"

text \<open>\<^verbatim>\<open>s.trim()\<close>.\<close>

definition trim :: "string \<Rightarrow> string" where
  "trim s = rev (dropWhile isSpace (rev (dropWhile isSpace s)))"

text \<open>\<^verbatim>\<open>s.includes(p)\<close>: \<open>p\<close> occurs in \<open>s\<close> as a contiguous substring.\<close>

fun startsWith :: "string \<Rightarrow> string \<Rightarrow> bool" where
  "startsWith s [] = True"
| "startsWith [] (p # ps) = False"
| "startsWith (c # cs) (p # ps) = (c = p \<and> startsWith cs ps)"

fun includesStr :: "string \<Rightarrow> string \<Rightarrow> bool" where
  "includesStr [] p = (p = [])"
| "includesStr (c # cs) p = (startsWith (c # cs) p \<or> includesStr cs p)"

text \<open>
  \<^verbatim>\<open>s.split(/\s+/)\<close>: the pieces between maximal runs of white space, an empty
  piece before a leading and after a trailing run included.
\<close>

function splitWs :: "string \<Rightarrow> string list" where
  "splitWs s = (case dropWhile (\<lambda>c. \<not> isSpace c) s of
       [] \<Rightarrow> [s]
     | c # rest \<Rightarrow> takeWhile (\<lambda>c. \<not> isSpace c) s # splitWs (dropWhile isSpace rest))"
  by pat_completeness auto
termination
proof (relation "measure length", goal_cases)
  case 1
  show ?case by simp
next
  case (2 s c rest)
  have "length (dropWhile isSpace rest) \<le> length rest"
    by (rule length_dropWhile_le)
  moreover have "length (c # rest) \<le> length s"
    using 2 length_dropWhile_le [of "\<lambda>c. \<not> isSpace c" s] by simp
  ultimately show ?case by simp
qed

declare splitWs.simps [simp del]

text \<open>A string is truthy when it is defined and not empty.\<close>

definition truthy :: "string option \<Rightarrow> bool" where
  "truthy t = (case t of None \<Rightarrow> False | Some s \<Rightarrow> s \<noteq> [])"

text \<open>\<^verbatim>\<open>a || b\<close> on optional strings.\<close>

definition orElse :: "string option \<Rightarrow> string option \<Rightarrow> string option" where
  "orElse a b = (if truthy a then a else b)"

section \<open>Data model (types.ts)\<close>

text \<open>
  The field \<^verbatim>\<open>type\<close> of a course is declared as
  \<^verbatim>\<open>'Core' | 'Elective' | 'Unknown'\<close>, but the catalog parser stores the cleaned cell
  text under a type assertion, so at run time it is any string.
\<close>

record Course =
  code :: string
  name :: string
  credits :: real
  type :: string

datatype Section = A | B

record ClassSession =
  date :: string
  timeSlot :: string
  courseCode :: string
  sessionNumber :: string
  sessSection :: "Section option"
  raw :: string
  isCancelled :: bool

record UserProfile =
  email :: string
  userSection :: Section
  electives :: "string list"

datatype AttendanceStatus = Present | Absent

record CourseStat =
  total :: nat
  attended :: nat
  leaves :: nat
  allowedLeaves :: nat

type_synonym Courses = "string \<rightharpoonup> Course"

section \<open>Attendance filter and aggregator (attendance-logic.ts)\<close>

text \<open>The callback of \<^verbatim>\<open>rawSchedule.filter\<close> in \<^verbatim>\<open>filterClassesForUser\<close>.\<close>

definition keepSession :: "Courses \<Rightarrow> UserProfile \<Rightarrow> ClassSession \<Rightarrow> bool" where
  "keepSession courses userProfile session =
     (case courses (courseCode session) of
        None \<Rightarrow> True
      | Some course \<Rightarrow>
          if type course = ''Elective'' then courseCode session \<in> set (electives userProfile)
          else if type course = ''Core'' then
            (case sessSection session of
               Some sec \<Rightarrow> sec = userSection userProfile
             | None \<Rightarrow> True)
          else True)"

definition filterClassesForUser ::
    "ClassSession list \<Rightarrow> Courses \<Rightarrow> UserProfile \<Rightarrow> ClassSession list" where
  "filterClassesForUser rawSchedule courses userProfile =
     filter (keepSession courses userProfile) rawSchedule"

text \<open>
  The inclusion rule in the words of the specification, as one Boolean expression:
  unknown course, or enrolled elective, or core class of the user's section or of no
  section, or any other course type.
\<close>

definition includedBySpec :: "Courses \<Rightarrow> UserProfile \<Rightarrow> ClassSession \<Rightarrow> bool" where
  "includedBySpec courses profile s =
     (courses (courseCode s) = None
      \<or> (\<exists>c. courses (courseCode s) = Some c \<and> type c = ''Elective''
              \<and> courseCode s \<in> set (electives profile))
      \<or> (\<exists>c. courses (courseCode s) = Some c \<and> type c = ''Core''
              \<and> (sessSection s = None \<or> sessSection s = Some (userSection profile)))
      \<or> (\<exists>c. courses (courseCode s) = Some c \<and> type c \<noteq> ''Elective'' \<and> type c \<noteq> ''Core''))"

text \<open>
  \<^verbatim>\<open>Math.floor(n * 0.20)\<close> for a session count \<open>n\<close>.  (A count is the number of
  elements of an array, so it is below \<open>2^32\<close>; for such counts the floor of the
  double product is the floor of the exact product taken here.)
\<close>

definition floorFifth :: "nat \<Rightarrow> nat" where
  "floorFifth n = nat \<lfloor>real n * 0.20\<rfloor>"

text \<open>The body of \<^verbatim>\<open>sessions.forEach\<close> in \<^verbatim>\<open>calculateStats\<close>, on the accumulator \<^verbatim>\<open>stats\<close>.\<close>

definition countSession ::
    "(string \<rightharpoonup> AttendanceStatus) \<Rightarrow> (string \<rightharpoonup> CourseStat) \<Rightarrow> ClassSession
       \<Rightarrow> (string \<rightharpoonup> CourseStat)" where
  "countSession attendance stats session =
     (let code = courseCode session;
          key = code @ ''-'' @ sessionNumber session;
          st = (case stats code of
                  None \<Rightarrow> \<lparr>total = 0, attended = 0, leaves = 0, allowedLeaves = 0\<rparr>
                | Some r \<Rightarrow> r);
          st1 = st\<lparr>total := total st + 1\<rparr>;
          st2 = (case attendance key of
                   Some Present \<Rightarrow> st1\<lparr>attended := attended st1 + 1\<rparr>
                 | Some Absent \<Rightarrow> st1\<lparr>leaves := leaves st1 + 1\<rparr>
                 | None \<Rightarrow> st1)
      in stats(code \<mapsto> st2))"

fun countSessions ::
    "(string \<rightharpoonup> AttendanceStatus) \<Rightarrow> (string \<rightharpoonup> CourseStat) \<Rightarrow> ClassSession list
       \<Rightarrow> (string \<rightharpoonup> CourseStat)" where
  "countSessions attendance stats [] = stats"
| "countSessions attendance stats (session # rest) =
     countSessions attendance (countSession attendance stats session) rest"

definition calculateStats ::
    "ClassSession list \<Rightarrow> (string \<rightharpoonup> AttendanceStatus) \<Rightarrow> (string \<rightharpoonup> CourseStat)" where
  "calculateStats sessions attendance =
     (\<lambda>code. map_option (\<lambda>r. r\<lparr>allowedLeaves := floorFifth (total r)\<rparr>)
                (countSessions attendance Map.empty sessions code))"

text \<open>Auxiliary notions for the aggregation loop: the count a code has so far, and the
  invariant that marks never exceed the count.\<close>

definition baseTotal :: "(string \<rightharpoonup> CourseStat) \<Rightarrow> string \<Rightarrow> nat" where
  "baseTotal stats c = (case stats c of None \<Rightarrow> 0 | Some r \<Rightarrow> total r)"

definition marksWithinTotal :: "(string \<rightharpoonup> CourseStat) \<Rightarrow> bool" where
  "marksWithinTotal stats = (\<forall>c r. stats c = Some r \<longrightarrow> attended r + leaves r \<le> total r)"

text \<open>A sample session of a course, used to run the functions on concrete inputs.\<close>

definition exSession :: "string \<Rightarrow> string \<Rightarrow> ClassSession" where
  "exSession c n = \<lparr>date = ''05-Jan-2026'', timeSlot = ''09:00 - 10:15'', courseCode = c,
     sessionNumber = n, sessSection = None, raw = c @ '' '' @ n, isCancelled = False\<rparr>"

section \<open>Properties of the attendance filter and aggregator\<close>

lemma keepSession_includedBySpec:
  "keepSession courses profile s = includedBySpec courses profile s"
  by (cases "courses (courseCode s)"; cases "sessSection s")
     (auto simp: keepSession_def includedBySpec_def)

text \<open>
  C2.  For every session list, course mapping and user profile, the result of
  \<^verbatim>\<open>filterClassesForUser\<close> consists of exactly the sessions of the input, in their
  order, that satisfy the inclusion rule: course code absent from the mapping, or type
  Elective with the code among the profile's electives, or type Core with the session's
  section null or equal to the profile's section, or any other type.
\<close>

theorem filterClassesForUser_spec:
  "filterClassesForUser sessions courses profile
     = filter (includedBySpec courses profile) sessions
   \<and> (s \<in> set (filterClassesForUser sessions courses profile)
        \<longleftrightarrow> s \<in> set sessions \<and> includedBySpec courses profile s)"
proof -
  have "keepSession courses profile = includedBySpec courses profile"
    by (rule ext) (rule keepSession_includedBySpec)
  then show ?thesis
    by (simp add: filterClassesForUser_def)
qed

lemma floorFifth_div: "floorFifth n = n div 5"
proof -
  have "real n * 0.20 = real n / real 5" by simp
  then have "\<lfloor>real n * 0.20\<rfloor> = \<lfloor>real n / real 5\<rfloor>" by simp
  also have "\<dots> = int (n div 5)" by (rule floor_divide_of_nat_eq)
  finally show ?thesis by (simp add: floorFifth_def)
qed

lemma countSession_total:
  "baseTotal (countSession att stats s) c
     = baseTotal stats c + (if courseCode s = c then 1 else 0)"
  by (auto simp: countSession_def baseTotal_def Let_def
           split: option.splits AttendanceStatus.splits)

lemma countSession_marks:
  "marksWithinTotal stats \<Longrightarrow> marksWithinTotal (countSession att stats s)"
  unfolding marksWithinTotal_def
proof (intro allI impI)
  fix c r
  assume inv: "\<forall>c r. stats c = Some r \<longrightarrow> attended r + leaves r \<le> total r"
    and r: "countSession att stats s c = Some r"
  show "attended r + leaves r \<le> total r"
  proof (cases "courseCode s = c")
    case False
    with r have "stats c = Some r" by (simp add: countSession_def Let_def)
    with inv show ?thesis by blast
  next
    case True
    define st where "st = (case stats c of
        None \<Rightarrow> \<lparr>total = 0, attended = 0, leaves = 0, allowedLeaves = 0\<rparr> | Some r0 \<Rightarrow> r0)"
    have st: "attended st + leaves st \<le> total st"
      using inv by (auto simp: st_def split: option.splits)
    from r True have "r = (case att (c @ ''-'' @ sessionNumber s) of
          Some Present \<Rightarrow> st\<lparr>total := total st + 1, attended := attended st + 1\<rparr>
        | Some Absent \<Rightarrow> st\<lparr>total := total st + 1, leaves := leaves st + 1\<rparr>
        | None \<Rightarrow> st\<lparr>total := total st + 1\<rparr>)"
      by (auto simp: countSession_def Let_def st_def split: option.splits AttendanceStatus.splits)
    with st show ?thesis
      by (simp split: option.splits AttendanceStatus.splits)
  qed
qed

lemma countSessions_total:
  "baseTotal (countSessions att stats ss) c
     = baseTotal stats c + length (filter (\<lambda>s. courseCode s = c) ss)"
  by (induction ss arbitrary: stats) (simp_all add: countSession_total)

lemma countSessions_marks:
  "marksWithinTotal stats \<Longrightarrow> marksWithinTotal (countSessions att stats ss)"
  by (induction ss arbitrary: stats) (simp_all add: countSession_marks)

text \<open>
  C3.  For every session list and attendance map, every per-course record \<open>r\<close> that
  \<^verbatim>\<open>calculateStats\<close> returns under a code \<open>c\<close> has
  \<open>allowedLeaves = floor (total * 0.20)\<close> and \<open>attended + leaves \<le> total\<close>, where
  \<open>total\<close> is the number of sessions of the input list with code \<open>c\<close>, whatever
  their dates.
\<close>

theorem calculateStats_bounds:
  assumes "calculateStats sessions attendance c = Some r"
  shows "int (allowedLeaves r) = \<lfloor>real (total r) * 0.20\<rfloor>
       \<and> attended r + leaves r \<le> total r
       \<and> total r = length (filter (\<lambda>s. courseCode s = c) sessions)"
proof -
  from assms obtain r0 where r0: "countSessions attendance Map.empty sessions c = Some r0"
    and r: "r = r0\<lparr>allowedLeaves := floorFifth (total r0)\<rparr>"
    by (auto simp: calculateStats_def)
  have "marksWithinTotal (countSessions attendance Map.empty sessions)"
    by (rule countSessions_marks) (simp add: marksWithinTotal_def)
  with r0 have m: "attended r0 + leaves r0 \<le> total r0"
    by (simp add: marksWithinTotal_def)
  have "baseTotal (countSessions attendance Map.empty sessions) c
          = length (filter (\<lambda>s. courseCode s = c) sessions)"
    using countSessions_total [of attendance Map.empty sessions c]
    by (simp add: baseTotal_def)
  with r0 have t: "total r0 = length (filter (\<lambda>s. courseCode s = c) sessions)"
    by (simp add: baseTotal_def)
  have "int (floorFifth (total r0)) = \<lfloor>real (total r0) * 0.20\<rfloor>"
    by (simp add: floorFifth_def)
  with m t r show ?thesis by simp
qed

lemma calculateStats_example:
  "calculateStats (map (exSession ''DT'') [''1'', ''2'', ''3'', ''4'', ''5'', ''6''])
       [''DT-1'' \<mapsto> Present, ''DT-2'' \<mapsto> Absent] ''DT''
     = Some \<lparr>total = 6, attended = 1, leaves = 1, allowedLeaves = 1\<rparr>"
  by (simp add: calculateStats_def countSession_def exSession_def floorFifth_div)

theorem calculateStats_bounds_witness:
  "calculateStats (map (exSession ''DT'') [''1'', ''2'', ''3'', ''4'', ''5'', ''6''])
       [''DT-1'' \<mapsto> Present, ''DT-2'' \<mapsto> Absent] ''DT''
     = Some \<lparr>total = 6, attended = 1, leaves = 1, allowedLeaves = 1\<rparr>
   \<and> int 1 = \<lfloor>real 6 * 0.20\<rfloor>
   \<and> (1::nat) + 1 \<le> 6
   \<and> (6::nat) = length (filter (\<lambda>s. courseCode s = ''DT'')
                    (map (exSession ''DT'') [''1'', ''2'', ''3'', ''4'', ''5'', ''6'']))"
  using calculateStats_bounds [OF calculateStats_example] calculateStats_example
  by simp

section \<open>Spreadsheet parsers (lib/sheets.ts)\<close>

text \<open>\<^verbatim>\<open>xs[i]\<close>: \<^verbatim>\<open>undefined\<close> beyond the end of the array.\<close>

definition cellAt :: "'a list \<Rightarrow> nat \<Rightarrow> 'a option" where
  "cellAt xs i = (if i < length xs then Some (xs ! i) else None)"

text \<open>\<^verbatim>\<open>s.replace(/\n/g, ' ')\<close>.\<close>

definition replaceNewlines :: "string \<Rightarrow> string" where
  "replaceNewlines s = map (\<lambda>c. if c = CHR 0x0A then CHR '' '' else c) s"

text \<open>\<^verbatim>\<open>s.replace(/\s+/g, ' ')\<close>: every maximal run of white space becomes one space.\<close>

function collapseWs :: "string \<Rightarrow> string" where
  "collapseWs [] = []"
| "collapseWs (c # cs) =
     (if isSpace c then CHR '' '' # collapseWs (dropWhile isSpace cs) else c # collapseWs cs)"
  by pat_completeness auto
termination
proof (relation "measure length", goal_cases)
  case 1
  show ?case by simp
next
  case (2 c cs)
  show ?case using length_dropWhile_le [of isSpace cs] by simp
next
  case (3 c cs)
  show ?case by simp
qed

text \<open>The cleaning of the type cell in \<^verbatim>\<open>parseCourses\<close>.\<close>

definition cleanType :: "string \<Rightarrow> string" where
  "cleanType s = trim (collapseWs (replaceNewlines s))"

text \<open>
  \<^verbatim>\<open>Number(x)\<close> belongs to the runtime; the parsers take it as a parameter
  \<open>num\<close>, with \<open>None\<close> for \<^verbatim>\<open>NaN\<close>.
\<close>

definition courseOfRow :: "(string \<Rightarrow> real option) \<Rightarrow> string list \<Rightarrow> (string \<times> Course) option" where
  "courseOfRow num row =
     (case map_option trim (cellAt row 3) of
        None \<Rightarrow> None
      | Some cd \<Rightarrow>
          if cd = [] then None
          else Some (cd,
            \<lparr>code = cd,
             name = (case map_option trim (cellAt row 1) of None \<Rightarrow> [] | Some n \<Rightarrow> n),
             credits = (case cellAt row 2 of
                          None \<Rightarrow> 0
                        | Some t \<Rightarrow> (case num t of None \<Rightarrow> 0 | Some x \<Rightarrow> x)),
             type = (case map_option cleanType (cellAt row 4) of
                       None \<Rightarrow> ''Unknown''
                     | Some t \<Rightarrow> if t = [] then ''Unknown'' else t)\<rparr>))"

fun addCourses :: "(string \<Rightarrow> real option) \<Rightarrow> Courses \<Rightarrow> string list list \<Rightarrow> Courses" where
  "addCourses num courses [] = courses"
| "addCourses num courses (row # rows) =
     addCourses num
       (case courseOfRow num row of None \<Rightarrow> courses | Some (cd, c) \<Rightarrow> courses(cd \<mapsto> c))
       rows"

definition parseCourses :: "(string \<Rightarrow> real option) \<Rightarrow> string list list \<Rightarrow> Courses" where
  "parseCourses num rows = addCourses num Map.empty (drop 1 rows)"

text \<open>A sample \<^verbatim>\<open>Number\<close> and a sample catalog sheet.\<close>

definition exNum :: "string \<Rightarrow> real option" where
  "exNum s = (if s = ''3'' then Some 3 else None)"

definition exCatalog :: "string list list" where
  "exCatalog =
     [[''Sl'', ''Name'', ''Credit'', ''Code'', ''Type''],
      [''1'', ''Design Thinking'', ''3'', ''DT'', ''Core''],
      [''2'', ''Game Theory'', ''3'', '' GT '', ''Compl.  Elective '']]"

text \<open>
  What white-space normalisation achieves: white space occurs only as single spaces
  between other characters (no run, no other white-space character, none at either end).
\<close>


fun spacedOnce :: "string \<Rightarrow> bool" where
  "spacedOnce [] = True"
| "spacedOnce [c] = True"
| "spacedOnce (c # d # cs) = (\<not> (isSpace c \<and> isSpace d) \<and> spacedOnce (d # cs))"

definition wsNormalized :: "string \<Rightarrow> bool" where
  "wsNormalized t =
     (list_all (\<lambda>c. \<not> isSpace c \<or> c = CHR '' '') t \<and> spacedOnce t
      \<and> (case t of [] \<Rightarrow> True | c # cs \<Rightarrow> \<not> isSpace c \<and> \<not> isSpace (last t)))"

section \<open>Properties of the catalog parser\<close>

lemma collapseWs_head:
  "collapseWs s = c # r \<Longrightarrow> isSpace c \<Longrightarrow> \<exists>d ds. s = d # ds \<and> isSpace d"
  by (cases s) (auto split: if_splits)

lemma dropWhile_no_head: "dropWhile P xs = y # ys \<Longrightarrow> \<not> P y"
  by (metis dropWhile_eq_Cons_conv)

lemma spacedOnce_collapseWs: "spacedOnce (collapseWs s)"
proof (induction s rule: collapseWs.induct)
  case 1
  show ?case by simp
next
  case (2 c cs)
  show ?case
  proof (cases "isSpace c")
    case True
    have "spacedOnce (collapseWs (dropWhile isSpace cs))" using 2 True by simp
    moreover have "\<not> isSpace d" if "collapseWs (dropWhile isSpace cs) = d # r" for d r
    proof
      assume "isSpace d"
      with that obtain e es where "dropWhile isSpace cs = e # es" "isSpace e"
        using collapseWs_head by blast
      then show False using dropWhile_no_head by fastforce
    qed
    ultimately show ?thesis using True
      by (cases "collapseWs (dropWhile isSpace cs)") auto
  next
    case False
    with 2 show ?thesis by (cases "collapseWs cs") auto
  qed
qed

lemma spaces_collapseWs: "list_all (\<lambda>c. \<not> isSpace c \<or> c = CHR '' '') (collapseWs s)"
  by (induction s rule: collapseWs.induct) auto

lemma spacedOnce_tl: "spacedOnce (c # cs) \<Longrightarrow> spacedOnce cs"
  by (cases cs) auto

lemma spacedOnce_dropWhile: "spacedOnce xs \<Longrightarrow> spacedOnce (dropWhile P xs)"
  by (induction xs) (auto dest: spacedOnce_tl)

lemma spacedOnce_take: "spacedOnce xs \<Longrightarrow> spacedOnce (take n xs)"
proof (induction xs arbitrary: n rule: spacedOnce.induct)
  case 1
  show ?case by simp
next
  case (2 c)
  show ?case by (cases n) auto
next
  case (3 c d cs)
  show ?case
  proof (cases n)
    case 0
    then show ?thesis by simp
  next
    case (Suc m)
    with 3 have "spacedOnce (take m (d # cs))" by simp
    with 3 Suc show ?thesis by (cases m) auto
  qed
qed

lemma rev_dropWhile_rev_take: "\<exists>n. rev (dropWhile P (rev xs)) = take n xs"
proof -
  have "rev xs = takeWhile P (rev xs) @ dropWhile P (rev xs)" by simp
  then have "xs = rev (dropWhile P (rev xs)) @ rev (takeWhile P (rev xs))"
    by (metis rev_append rev_rev_ident)
  then have "take (length (rev (dropWhile P (rev xs)))) xs = rev (dropWhile P (rev xs))"
    by (metis append_eq_conv_conj)
  then show ?thesis by metis
qed

lemma trim_ends:
  "trim s = c # cs \<Longrightarrow> \<not> isSpace c \<and> \<not> isSpace (last (trim s))"
proof -
  assume t: "trim s = c # cs"
  let ?d = "dropWhile isSpace s"
  have ne: "dropWhile isSpace (rev ?d) \<noteq> []" using t by (auto simp: trim_def)
  then obtain y ys where y: "dropWhile isSpace (rev ?d) = y # ys" by (cases "dropWhile isSpace (rev ?d)") auto
  then have ny: "\<not> isSpace y" by (rule dropWhile_no_head)
  have "last (trim s) = y" using y by (simp add: trim_def)
  moreover
  obtain n where n: "trim s = take n ?d" using rev_dropWhile_rev_take [of isSpace ?d] by (auto simp: trim_def)
  have "?d \<noteq> []"
  proof
    assume "?d = []"
    then have "take n ?d = []" by (simp only: take_Nil)
    with n t show False by simp
  qed
  then obtain e es where e: "?d = e # es" by (cases ?d) auto
  then have "\<not> isSpace e" by (rule dropWhile_no_head)
  moreover have "c = e" using n t e by (cases n) auto
  ultimately show ?thesis using ny by simp
qed

lemma list_all_dropWhile: "list_all Q xs \<Longrightarrow> list_all Q (dropWhile P xs)"
  by (induction xs) auto

lemma list_all_take: "list_all Q xs \<Longrightarrow> list_all Q (take n xs)"
  by (metis append_take_drop_id list_all_append)

lemma wsNormalized_cleanType: "wsNormalized (cleanType s)"
proof -
  let ?c = "collapseWs (replaceNewlines s)"
  obtain n where n: "cleanType s = take n (dropWhile isSpace ?c)"
    using rev_dropWhile_rev_take [of isSpace "dropWhile isSpace ?c"]
    by (auto simp: cleanType_def trim_def)
  have "spacedOnce (cleanType s)"
    unfolding n by (intro spacedOnce_take spacedOnce_dropWhile spacedOnce_collapseWs)
  moreover have "list_all (\<lambda>c. \<not> isSpace c \<or> c = CHR '' '') (cleanType s)"
    unfolding n by (intro list_all_take list_all_dropWhile spaces_collapseWs)
  moreover have "case cleanType s of [] \<Rightarrow> True | c # cs \<Rightarrow> \<not> isSpace c \<and> \<not> isSpace (last (cleanType s))"
    using trim_ends [of "?c"] by (auto simp: cleanType_def split: list.splits)
  ultimately show ?thesis by (simp add: wsNormalized_def)
qed

lemma addCourses_Some:
  "addCourses num courses rows c = Some course \<Longrightarrow>
     courses c = Some course \<or> (\<exists>row \<in> set rows. courseOfRow num row = Some (c, course))"
  by (induction rows arbitrary: courses) (fastforce split: option.splits if_splits)+

lemma parseCourses_exCatalog:
  "parseCourses exNum exCatalog ''GT''
     = Some \<lparr>code = ''GT'', name = ''Game Theory'', credits = 3, type = ''Compl. Elective''\<rparr>"
  by (simp add: parseCourses_def exCatalog_def courseOfRow_def cellAt_def trim_def isSpace_def
        cleanType_def replaceNewlines_def exNum_def)

text \<open>
  The scenario of the specification: the catalog row
  \<^verbatim>\<open>["1","Design Thinking","3","DT","Core"]\<close> gives the course
  \<^verbatim>\<open>{code:"DT", name:"Design Thinking", credits:3, type:"Core"}\<close>.
\<close>

lemma parseCourses_scenario:
  "parseCourses exNum exCatalog ''DT''
     = Some \<lparr>code = ''DT'', name = ''Design Thinking'', credits = 3, type = ''Core''\<rparr>"
  by (simp add: parseCourses_def exCatalog_def courseOfRow_def cellAt_def trim_def isSpace_def
        cleanType_def replaceNewlines_def exNum_def)

text \<open>
  C4, as stated, fails: the cleaned type text is stored as it is, under a type
  assertion that does nothing at run time.  The sample catalog has a course whose type
  is none of \<^verbatim>\<open>Core\<close>, \<^verbatim>\<open>Elective\<close>, \<^verbatim>\<open>Unknown\<close> after parsing.
\<close>

theorem parseCourses_type_counterexample:
  "map_option type (parseCourses exNum exCatalog ''GT'') = Some ''Compl. Elective''
   \<and> ''Compl. Elective'' \<notin> {''Core'', ''Elective'', ''Unknown''}"
  by (simp add: parseCourses_exCatalog)

text \<open>
  C4, amended.  In \<^verbatim>\<open>parseCourses\<close>, the type of every resulting course is
  white-space normalised, and it is the cleaned text (newlines and runs of white space
  collapsed to single spaces, then trimmed) of the type cell of a data row with that
  code, kept whatever the text is; only a missing type cell, or one whose cleaned text is
  empty, gives \<^verbatim>\<open>Unknown\<close>.
\<close>

theorem parseCourses_type:
  assumes "parseCourses num rows c = Some course"
  shows "wsNormalized (type course)
       \<and> (\<exists>row \<in> set (drop 1 rows).
             map_option trim (cellAt row 3) = Some c
           \<and> type course = (case cellAt row 4 of
                               None \<Rightarrow> ''Unknown''
                             | Some t \<Rightarrow> if cleanType t = [] then ''Unknown'' else cleanType t))"
proof -
  from assms obtain row where row: "row \<in> set (drop 1 rows)"
    and c: "courseOfRow num row = Some (c, course)"
    using addCourses_Some [of num Map.empty "drop 1 rows" c course]
    by (auto simp: parseCourses_def)
  from c have code: "map_option trim (cellAt row 3) = Some c"
    by (auto simp: courseOfRow_def split: option.splits if_splits)
  from c have ty: "type course = (case cellAt row 4 of
        None \<Rightarrow> ''Unknown''
      | Some t \<Rightarrow> if cleanType t = [] then ''Unknown'' else cleanType t)"
    by (auto simp: courseOfRow_def split: option.splits if_splits)
  have "wsNormalized ''Unknown''"
    by (simp add: wsNormalized_def isSpace_def)
  with ty have "wsNormalized (type course)"
    by (auto simp: wsNormalized_cleanType split: option.splits)
  with row code ty show ?thesis by blast
qed

theorem parseCourses_type_witness:
  "wsNormalized ''Compl. Elective''
   \<and> (\<exists>row \<in> set (drop 1 exCatalog).
         map_option trim (cellAt row 3) = Some ''GT''
       \<and> ''Compl. Elective'' = (case cellAt row 4 of
                                  None \<Rightarrow> ''Unknown''
                                | Some t \<Rightarrow> if cleanType t = [] then ''Unknown'' else cleanType t))"
  using parseCourses_type [OF parseCourses_exCatalog] by simp

section \<open>Timetable grid parser (lib/sheets.ts)\<close>

text \<open>
  A cell of the grid data: \<^verbatim>\<open>userEnteredValue?.stringValue\<close>, \<^verbatim>\<open>formattedValue\<close> and
  \<^verbatim>\<open>effectiveFormat?.textFormat?.strikethrough\<close>.  A row is its \<^verbatim>\<open>values\<close> array, which
  may be missing.
\<close>

record Cell =
  stringValue :: "string option"
  formattedValue :: "string option"
  strikethrough :: "bool option"

type_synonym Row = "Cell list option"

record GridData =
  rowData :: "Row list option"

datatype JsError = TypeError | RangeError | ApiError

text \<open>\<^verbatim>\<open>c.userEnteredValue?.stringValue || c.formattedValue\<close>, also through \<^verbatim>\<open>c?.\<close>.\<close>

definition cellText :: "Cell \<Rightarrow> string option" where
  "cellText c = orElse (stringValue c) (formattedValue c)"

definition optCellText :: "Cell option \<Rightarrow> string option" where
  "optCellText c = (case c of None \<Rightarrow> None | Some x \<Rightarrow> cellText x)"

text \<open>\<^verbatim>\<open>row.values?.[i]\<close>.\<close>

definition rowCell :: "Row \<Rightarrow> nat \<Rightarrow> Cell option" where
  "rowCell row i = (case row of None \<Rightarrow> None | Some cs \<Rightarrow> cellAt cs i)"

text \<open>Decimal digits of a number, for the template \<^verbatim>\<open>`Slot ${i - 2}`\<close>.\<close>

function showNat :: "nat \<Rightarrow> string" where
  "showNat n = (if n < 10 then [char_of (48 + n)]
                else showNat (n div 10) @ [char_of (48 + n mod 10)])"
  by pat_completeness auto
termination
  by (relation "measure id") auto

declare showNat.simps [simp del]

text \<open>
  The test \<^verbatim>\<open>cleanSlot.match(/(\d{1,2}:\d{2}\s*(?:am|pm|noon|AM|PM)[\s\S]*?)(?:\r\n|\r|\n|$)/)\<close>.
  The lazy tail and the final alternative always match up to the end of the input, and a
  match with two leading digits contains one with a single digit, so there is a match
  exactly when some position holds a digit, a colon, two digits, white space and one of
  the five words.
\<close>

fun timeAt :: "string \<Rightarrow> bool" where
  "timeAt (h # c # m1 # m2 # rest) =
     (isDigit h \<and> c = CHR '':'' \<and> isDigit m1 \<and> isDigit m2
      \<and> list_ex (startsWith (dropWhile isSpace rest)) [''am'', ''pm'', ''noon'', ''AM'', ''PM''])"
| "timeAt s = False"

fun hasTimeMatch :: "string \<Rightarrow> bool" where
  "hasTimeMatch [] = False"
| "hasTimeMatch (c # cs) = (timeAt (c # cs) \<or> hasTimeMatch cs)"

text \<open>
  \<^verbatim>\<open>s.replace(/Slot\s*\d+\s*/i, '')\<close>: the leftmost occurrence of the word (in any
  case), white space, at least one digit and white space is removed; the greedy
  quantifiers take every white-space character and digit there is.
\<close>

definition slotAt :: "string \<Rightarrow> string option" where
  "slotAt s =
     (if toLowerCase (take 4 s) = ''slot'' then
        (case dropWhile isSpace (drop 4 s) of
           [] \<Rightarrow> None
         | d # ds \<Rightarrow> if isDigit d then Some (dropWhile isSpace (dropWhile isDigit ds)) else None)
      else None)"

fun removeSlot :: "string \<Rightarrow> string" where
  "removeSlot [] = []"
| "removeSlot (c # cs) = (case slotAt (c # cs) of Some r \<Rightarrow> r | None \<Rightarrow> c # removeSlot cs)"

text \<open>The body of the loop over the header row, for column \<open>i\<close>.\<close>

definition cleanSlot :: "nat \<Rightarrow> Cell \<Rightarrow> string" where
  "cleanSlot i c =
     (let val = cellText c;
          s = (case val of
                 None \<Rightarrow> ''Slot '' @ showNat (i - 2)
               | Some v \<Rightarrow> if v = [] then ''Slot '' @ showNat (i - 2) else v)
      in if hasTimeMatch s then trim (replaceNewlines (trim (removeSlot s))) else s)"

definition timeSlots :: "Cell list \<Rightarrow> string list" where
  "timeSlots headerRow = map (\<lambda>i. cleanSlot i (headerRow ! i)) [3 ..< length headerRow]"

text \<open>\<^verbatim>\<open>row.values?.some((c, i) => i > 0 && (...))\<close>.\<close>

definition hasData :: "Row \<Rightarrow> bool" where
  "hasData row = (case row of None \<Rightarrow> False
                  | Some cs \<Rightarrow> list_ex (\<lambda>c. truthy (cellText c)) (drop 1 cs))"

text \<open>\<^verbatim>\<open>courseCode.replace(/[^a-zA-Z0-9]/g, '')\<close>.\<close>

definition stripNonAlnum :: "string \<Rightarrow> string" where
  "stripNonAlnum s = filter (\<lambda>c. isLower c \<or> isUpper c \<or> isDigit c) s"

text \<open>
  The names that every plain object inherits from \<^verbatim>\<open>Object.prototype\<close>.  The course
  mapping is a plain object, so \<^verbatim>\<open>courses[k]\<close> is truthy when \<open>k\<close> is one of its own
  keys (the values are objects) and also when \<open>k\<close> is one of these names (the values
  are functions, or the prototype itself).
\<close>

definition objectPrototypeNames :: "string list" where
  "objectPrototypeNames =
     [''constructor'', ''__defineGetter__'', ''__defineSetter__'', ''hasOwnProperty'',
      ''__lookupGetter__'', ''__lookupSetter__'', ''isPrototypeOf'', ''propertyIsEnumerable'',
      ''toString'', ''valueOf'', ''__proto__'', ''toLocaleString'']"

definition truthyLookup :: "Courses \<Rightarrow> string \<Rightarrow> bool" where
  "truthyLookup courses k = (courses k \<noteq> None \<or> k \<in> set objectPrototypeNames)"

text \<open>The validation of the course code: the code to use, when there is one.\<close>

definition validCode :: "Courses \<Rightarrow> string \<Rightarrow> string option" where
  "validCode courses c =
     (if truthyLookup courses c then Some c
      else if truthyLookup courses (stripNonAlnum c) then Some (stripNonAlnum c)
      else None)"

text \<open>The section of a cell, from its tokens and the trimmed section cell of its row.\<close>

definition cellSection :: "string list \<Rightarrow> string option \<Rightarrow> Section option" where
  "cellSection parts rowSection =
     (let section0 =
            (if 3 \<le> length parts then
               (let sec = toUpperCase (parts ! 2)
                in if sec = ''A'' then Some A else if sec = ''B'' then Some B else None)
             else None)
      in if section0 = None \<and> (rowSection = Some ''A'' \<or> rowSection = Some ''B'')
         then (if rowSection = Some ''A'' then Some A else Some B)
         else section0)"

text \<open>
  The callback of \<^verbatim>\<open>timeSlots.forEach\<close>: the session pushed for one cell, if any.
  \<open>theDate\<close> is the date of the row and \<open>rowSection\<close> its trimmed section cell.
\<close>

definition parseCell ::
    "Courses \<Rightarrow> string \<Rightarrow> string option \<Rightarrow> string \<Rightarrow> Cell option \<Rightarrow> ClassSession option" where
  "parseCell courses theDate rowSection slotName cell =
     (case cell of
        None \<Rightarrow> None
      | Some c \<Rightarrow>
         (case cellText c of
            None \<Rightarrow> None
          | Some text \<Rightarrow>
              if text = [] \<or> trim text = []
                 \<or> includesStr (toLowerCase text) ''lunch''
                 \<or> includesStr (toLowerCase text) ''break'' then None
              else
                (case splitWs (trim text) of
                   [] \<Rightarrow> None
                 | p0 # ps \<Rightarrow>
                    (case validCode courses p0 of
                       None \<Rightarrow> None
                     | Some cc \<Rightarrow>
                         Some \<lparr>date = theDate,
                               timeSlot = slotName,
                               courseCode = cc,
                               sessionNumber = (case ps of [] \<Rightarrow> [] | p1 # _ \<Rightarrow> p1),
                               sessSection = cellSection (p0 # ps) rowSection,
                               raw = text,
                               isCancelled = (strikethrough c = Some True)\<rparr>))))"

text \<open>The sessions of one row, once its date is settled.\<close>

definition rowSessions :: "Courses \<Rightarrow> string list \<Rightarrow> string \<Rightarrow> Row \<Rightarrow> ClassSession list" where
  "rowSessions courses slots theDate row =
     (let rowSection = map_option trim (optCellText (rowCell row 2))
      in List.map_filter
           (\<lambda>i. parseCell courses theDate rowSection (slots ! i) (rowCell row (i + 3)))
           [0 ..< length slots])"

text \<open>The date cell of a row, when it is truthy.\<close>

definition rowDate :: "Row \<Rightarrow> string option" where
  "rowDate row = (if truthy (optCellText (rowCell row 0)) then optCellText (rowCell row 0) else None)"

text \<open>
  The callback of \<^verbatim>\<open>rows.slice(2).forEach\<close>: the new value of \<^verbatim>\<open>lastDate\<close> and the
  sessions pushed for the row.
\<close>

definition processRow ::
    "Courses \<Rightarrow> string list \<Rightarrow> string option \<Rightarrow> Row \<Rightarrow> string option \<times> ClassSession list" where
  "processRow courses slots lastDate row =
     (if \<not> hasData row then (lastDate, [])
      else
        (case rowDate row of
           Some d \<Rightarrow> (Some d, rowSessions courses slots d row)
         | None \<Rightarrow>
            (case lastDate of
               Some d \<Rightarrow> (lastDate, rowSessions courses slots d row)
             | None \<Rightarrow> (lastDate, []))))"

fun parseRows :: "Courses \<Rightarrow> string list \<Rightarrow> string option \<Rightarrow> Row list \<Rightarrow> ClassSession list" where
  "parseRows courses slots lastDate [] = []"
| "parseRows courses slots lastDate (row # rows) =
     snd (processRow courses slots lastDate row)
       @ parseRows courses slots (fst (processRow courses slots lastDate row)) rows"

text \<open>
  \<^verbatim>\<open>parseSchedule(data, courses)\<close>.  Reading \<^verbatim>\<open>data.rowData\<close> of an undefined
  \<^verbatim>\<open>data\<close> throws.
\<close>

definition parseSchedule :: "GridData option \<Rightarrow> Courses \<Rightarrow> JsError + ClassSession list" where
  "parseSchedule data courses =
     (case data of
        None \<Rightarrow> Inl TypeError
      | Some d \<Rightarrow>
          Inr (case rowData d of
                 None \<Rightarrow> []
               | Some rows \<Rightarrow>
                   if length rows < 3 then []
                   else (case rows ! 1 of
                           None \<Rightarrow> []
                         | Some headerRow \<Rightarrow>
                             parseRows courses (timeSlots headerRow) None (drop 2 rows))))"

text \<open>Sample cells, a sample course mapping and a sample timetable sheet.\<close>

definition textCell :: "string \<Rightarrow> Cell" where
  "textCell s = \<lparr>stringValue = Some s, formattedValue = Some s, strikethrough = None\<rparr>"

definition struckCell :: "string \<Rightarrow> Cell" where
  "struckCell s = \<lparr>stringValue = Some s, formattedValue = Some s, strikethrough = Some True\<rparr>"

definition blankCell :: Cell where
  "blankCell = \<lparr>stringValue = None, formattedValue = None, strikethrough = None\<rparr>"

definition exHeader :: "Cell list" where
  "exHeader = [textCell ''Session Date'', textCell ''Classroom'', textCell ''Section'',
               textCell (''Slot 1'' @ [CHR 0x0A] @ ''09:00 am - 10:15 am''),
               textCell ''Slot 2'', blankCell]"

definition exRowB :: Row where
  "exRowB = Some [textCell ''05-Jan-2026'', textCell ''CR1'', textCell ''B'',
                  textCell ''DT 3 A'', textCell ''DT 3'', textCell ''and'']"

definition exRowA :: Row where
  "exRowA = Some [blankCell, textCell ''CR2'', textCell '' A '',
                  struckCell ''(GT) 4 b'', textCell ''Lunch Break'', textCell ''GT'']"

definition exDateOnly :: Row where
  "exDateOnly = Some [textCell ''06-Jan-2026'']"

definition exGrid :: GridData where
  "exGrid = \<lparr>rowData = Some [Some [textCell ''Time Table''], Some exHeader, exRowB, None, exRowA]\<rparr>"


text \<open>
  Notions of the specification.  The first white-space separated token of a cell;
  the section rule (third token upper-cased if that is \<^verbatim>\<open>A\<close> or \<^verbatim>\<open>B\<close>, otherwise the
  trimmed section cell of the row if that is exactly \<^verbatim>\<open>A\<close> or \<^verbatim>\<open>B\<close>, otherwise
  null); the value of \<^verbatim>\<open>lastDate\<close> after a list of rows, and the sessions the loop
  pushes for a row that follows them.
\<close>

definition firstToken :: "Cell \<Rightarrow> string option" where
  "firstToken c = (case cellText c of
                     None \<Rightarrow> None
                   | Some text \<Rightarrow> (case splitWs (trim text) of [] \<Rightarrow> None | t # ts \<Rightarrow> Some t))"

definition sectionOfLetter :: "string \<Rightarrow> Section option" where
  "sectionOfLetter t = (if t = ''A'' then Some A else if t = ''B'' then Some B else None)"

definition sectionBySpec :: "string list \<Rightarrow> string option \<Rightarrow> Section option" where
  "sectionBySpec tokens rowSection =
     (if 3 \<le> length tokens \<and> sectionOfLetter (toUpperCase (tokens ! 2)) \<noteq> None
      then sectionOfLetter (toUpperCase (tokens ! 2))
      else (case rowSection of None \<Rightarrow> None | Some v \<Rightarrow> sectionOfLetter v))"

definition lastDateAfter :: "Row list \<Rightarrow> string option" where
  "lastDateAfter rows =
     foldl (\<lambda>lastDate row. fst (processRow Map.empty [] lastDate row)) None rows"

definition sessionsOfRow :: "Courses \<Rightarrow> string list \<Rightarrow> Row list \<Rightarrow> Row \<Rightarrow> ClassSession list" where
  "sessionsOfRow courses slots pre r = snd (processRow courses slots (lastDateAfter pre) r)"

text \<open>
  Two readings of the date seen last.  The most recently seen non-empty date: the date
  cell of the last row so far whose date cell is not empty.  And the narrower notion the
  loop implements: the date cell of the last row so far that has a non-empty date cell
  and a populated cell beyond the date column.
\<close>

definition lastDateCell :: "Row list \<Rightarrow> string option" where
  "lastDateCell rows =
     (case filter (\<lambda>row. rowDate row \<noteq> None) rows of
        [] \<Rightarrow> None
      | x # xs \<Rightarrow> rowDate (last (x # xs)))"

definition lastDataRowDate :: "Row list \<Rightarrow> string option" where
  "lastDataRowDate rows =
     (case filter (\<lambda>row. hasData row \<and> rowDate row \<noteq> None) rows of
        [] \<Rightarrow> None
      | x # xs \<Rightarrow> rowDate (last (x # xs)))"

text \<open>More samples: a course mapping and three sheets.\<close>

definition exCourses :: Courses where
  "exCourses = [''DT'' \<mapsto> \<lparr>code = ''DT'', name = ''Design Thinking'', credits = 3, type = ''Core''\<rparr>,
                ''GT'' \<mapsto> \<lparr>code = ''GT'', name = ''Game Theory'', credits = 3, type = ''Elective''\<rparr>]"

definition exInheritedGrid :: GridData where
  "exInheritedGrid =
     \<lparr>rowData = Some [Some [textCell ''Time Table''], Some exHeader,
                       Some [textCell ''05-Jan-2026'', textCell ''CR1'', textCell ''A'',
                             textCell ''constructor 1'']]\<rparr>"

definition exScenarioGrid :: GridData where
  "exScenarioGrid =
     \<lparr>rowData = Some [Some [textCell ''Time Table''], Some exHeader,
                       Some [textCell ''05-Jan-2026'', textCell ''CR1'', textCell ''B'',
                             textCell ''DT 3 A'', textCell ''DT 3'']]\<rparr>"

definition exDateOnlyGrid :: GridData where
  "exDateOnlyGrid =
     \<lparr>rowData = Some [Some [textCell ''Time Table''], Some exHeader,
                       exRowB, exDateOnly, exRowA]\<rparr>"

section \<open>Properties of the timetable grid parser\<close>

lemma parseCell_code:
  "parseCell courses d rs slot cell = Some s \<Longrightarrow>
     courseCode s \<in> dom courses \<or> courseCode s \<in> set objectPrototypeNames"
  by (auto simp: parseCell_def validCode_def truthyLookup_def
           split: option.splits if_splits list.splits)

lemma parseCell_date:
  "parseCell courses d rs slot cell = Some s \<Longrightarrow> date s = d"
  by (auto simp: parseCell_def split: option.splits if_splits list.splits)

lemma rowSessions_elem:
  "s \<in> set (rowSessions courses slots d row) \<Longrightarrow>
     \<exists>i < length slots. parseCell courses d (map_option trim (optCellText (rowCell row 2)))
                          (slots ! i) (rowCell row (i + 3)) = Some s"
  by (auto simp: rowSessions_def Let_def List.map_filter_def)

lemma rowSessions_intro:
  "i < length slots \<Longrightarrow>
   parseCell courses d (map_option trim (optCellText (rowCell row 2)))
      (slots ! i) (rowCell row (i + 3)) = Some s \<Longrightarrow>
   s \<in> set (rowSessions courses slots d row)"
  by (force simp: rowSessions_def Let_def List.map_filter_def)

lemma parseRows_elem:
  "s \<in> set (parseRows courses slots ld rows) \<Longrightarrow>
     \<exists>row \<in> set rows. \<exists>dt. s \<in> set (rowSessions courses slots dt row)"
  by (induction rows arbitrary: ld)
     (auto simp: processRow_def split: if_splits option.splits)

lemma parseRows_dated:
  "row \<in> set rows \<Longrightarrow> hasData row \<Longrightarrow> rowDate row = Some dt \<Longrightarrow>
     set (rowSessions courses slots dt row) \<subseteq> set (parseRows courses slots ld rows)"
  by (induction rows arbitrary: ld) (auto simp: processRow_def)

text \<open>
  What the validation does ensure: the course code of every session is a key of the
  mapping or one of the names every object inherits.
\<close>

lemma parseSchedule_codes:
  "parseSchedule data courses = Inr sessions \<Longrightarrow> s \<in> set sessions \<Longrightarrow>
     courseCode s \<in> dom courses \<or> courseCode s \<in> set objectPrototypeNames"
proof -
  assume p: "parseSchedule data courses = Inr sessions" and s: "s \<in> set sessions"
  then obtain slots rows where "s \<in> set (parseRows courses slots None rows)"
    by (auto simp: parseSchedule_def split: option.splits if_splits)
  then obtain row dt where "s \<in> set (rowSessions courses slots dt row)"
    using parseRows_elem by blast
  then show ?thesis
    using rowSessions_elem parseCell_code by blast
qed

text \<open>
  C1 says that a cell whose first white-space separated token is not a key of the course
  mapping, also after all characters other than letters and digits are stripped from it,
  yields no session, so that every session returned by \<^verbatim>\<open>parseSchedule\<close> has a course
  code that is a key of the mapping.  The code tests \<^verbatim>\<open>courses[courseCode]\<close> for
  truthiness, which inherited names pass: the cell \<^verbatim>\<open>constructor 1\<close>, whose first token
  is no key of the sample mapping and has nothing to strip, yields a session with the
  course code \<^verbatim>\<open>constructor\<close>.
\<close>

theorem parseSchedule_inherited_name:
  "firstToken (textCell ''constructor 1'') = Some ''constructor''
   \<and> exCourses ''constructor'' = None
   \<and> list_all (\<lambda>c. isLower c \<or> isUpper c \<or> isDigit c) ''constructor''
   \<and> stripNonAlnum ''constructor'' = ''constructor''
   \<and> parseSchedule (Some exInheritedGrid) exCourses
       = Inr [\<lparr>date = ''05-Jan-2026'', timeSlot = ''09:00 am - 10:15 am'',
                courseCode = ''constructor'', sessionNumber = ''1'', sessSection = Some A,
                raw = ''constructor 1'', isCancelled = False\<rparr>]"
  by code_simp

lemma cellSection_spec: "cellSection parts rs = sectionBySpec parts rs"
  by (auto simp: cellSection_def sectionBySpec_def sectionOfLetter_def Let_def split: option.splits)

lemma parseCell_section:
  "parseCell courses d rs slot (Some c) = Some s \<Longrightarrow>
     \<exists>text. cellText c = Some text \<and> raw s = text
          \<and> sessSection s = sectionBySpec (splitWs (trim text)) rs"
  by (auto simp: parseCell_def cellSection_spec split: option.splits if_splits list.splits)

lemma fst_processRow:
  "fst (processRow courses slots ld row) = fst (processRow Map.empty [] ld row)"
  by (simp add: processRow_def split: option.splits)

lemma parseRows_append:
  "parseRows courses slots ld (xs @ ys)
     = parseRows courses slots ld xs
       @ parseRows courses slots (foldl (\<lambda>l row. fst (processRow Map.empty [] l row)) ld xs) ys"
proof (induction xs arbitrary: ld)
  case Nil
  show ?case by simp
next
  case (Cons x xs)
  show ?case by (simp add: Cons.IH fst_processRow [of courses slots])
qed

lemma lastDateAfter_snoc:
  "lastDateAfter (rows @ [row])
     = (if hasData row \<and> rowDate row \<noteq> None then rowDate row else lastDateAfter rows)"
  by (auto simp: lastDateAfter_def processRow_def split: option.splits)

lemma lastDataRowDate_snoc:
  "lastDataRowDate (rows @ [row])
     = (if hasData row \<and> rowDate row \<noteq> None then rowDate row else lastDataRowDate rows)"
  by (auto simp: lastDataRowDate_def split: list.splits)

lemma lastDateAfter_lastDataRowDate: "lastDateAfter rows = lastDataRowDate rows"
proof (induction rows rule: rev_induct)
  case Nil
  show ?case by (simp add: lastDateAfter_def lastDataRowDate_def)
next
  case (snoc row rows)
  then show ?case by (simp only: lastDateAfter_snoc lastDataRowDate_snoc)
qed

lemma exDateOnlyGrid_parsed:
  "map_sum id (map (\<lambda>s. (date s, raw s))) (parseSchedule (Some exDateOnlyGrid) exCourses)
     = Inr [(''05-Jan-2026'', ''DT 3 A''), (''05-Jan-2026'', ''DT 3''),
            (''05-Jan-2026'', ''(GT) 4 b''), (''05-Jan-2026'', ''GT'')]"
  by code_simp

text \<open>
  C7, as stated, fails.  In the first sample sheet the row before the dateless row
  holds the date 06-Jan-2026 and nothing else: that is the most recently seen non-empty
  date, but the sessions of the dateless row are dated 05-Jan-2026, the date of the row
  before.  In the second the only row before the dateless row holds a date and nothing
  else: a date has been seen, but the dateless row is skipped.
\<close>

theorem parseSchedule_merged_dates_counterexample:
  "rowDate exRowA = None \<and> hasData exRowA
   \<and> lastDateCell [exRowB, exDateOnly] = Some ''06-Jan-2026''
   \<and> map_sum id (map (\<lambda>s. (date s, raw s))) (parseSchedule (Some exDateOnlyGrid) exCourses)
       = Inr [(''05-Jan-2026'', ''DT 3 A''), (''05-Jan-2026'', ''DT 3''),
              (''05-Jan-2026'', ''(GT) 4 b''), (''05-Jan-2026'', ''GT'')]
   \<and> lastDateCell [exDateOnly] = Some ''06-Jan-2026''
   \<and> parseSchedule
        (Some \<lparr>rowData = Some [Some [textCell ''Time Table''], Some exHeader,
                                exDateOnly, exRowA]\<rparr>) exCourses = Inr []"
  by code_simp

text \<open>
  C7, amended.  Let the data rows of a well-formed sheet be \<open>pre\<close>, then \<open>r\<close>, then
  \<open>post\<close>.  The output of \<^verbatim>\<open>parseSchedule\<close> is the output for \<open>pre\<close>, then the
  sessions of \<open>r\<close>, then the output for \<open>post\<close>, and the date carried into \<open>r\<close> is the
  date cell of the last row of \<open>pre\<close> that has a non-empty date cell and a populated cell
  beyond the date column.  If \<open>r\<close> has such a populated cell but an empty date cell and
  that date is \<open>dt\<close>, the sessions of \<open>r\<close> are those of the row under \<open>dt\<close>, each dated
  \<open>dt\<close>; if \<open>pre\<close> has no such row, \<open>r\<close> yields nothing; and a row with no populated
  cell beyond the date column yields nothing.
\<close>

theorem parseSchedule_merged_dates:
  assumes "rowData d = Some rows" and "3 \<le> length rows" and "rows ! 1 = Some headerRow"
    and "drop 2 rows = pre @ r # post"
  shows "parseSchedule (Some d) courses
           = Inr (parseRows courses (timeSlots headerRow) None pre
                  @ sessionsOfRow courses (timeSlots headerRow) pre r
                  @ parseRows courses (timeSlots headerRow) (lastDateAfter (pre @ [r])) post)
       \<and> lastDateAfter pre = lastDataRowDate pre
       \<and> (hasData r \<and> rowDate r = None \<and> lastDataRowDate pre = Some dt
            \<longrightarrow> sessionsOfRow courses (timeSlots headerRow) pre r
                   = rowSessions courses (timeSlots headerRow) dt r
              \<and> (\<forall>s \<in> set (sessionsOfRow courses (timeSlots headerRow) pre r). date s = dt))
       \<and> (rowDate r = None \<and> lastDataRowDate pre = None
            \<longrightarrow> sessionsOfRow courses (timeSlots headerRow) pre r = [])
       \<and> (\<not> hasData r \<longrightarrow> sessionsOfRow courses (timeSlots headerRow) pre r = [])"
proof -
  let ?slots = "timeSlots headerRow"
  have "parseSchedule (Some d) courses = Inr (parseRows courses ?slots None (pre @ r # post))"
    using assms by (simp add: parseSchedule_def)
  also have "parseRows courses ?slots None (pre @ r # post)
      = parseRows courses ?slots None pre @ sessionsOfRow courses ?slots pre r
        @ parseRows courses ?slots (lastDateAfter (pre @ [r])) post"
    by (simp add: parseRows_append sessionsOfRow_def lastDateAfter_def
          fst_processRow [of courses ?slots])
  finally have 1: "parseSchedule (Some d) courses
      = Inr (parseRows courses ?slots None pre @ sessionsOfRow courses ?slots pre r
             @ parseRows courses ?slots (lastDateAfter (pre @ [r])) post)" .
  have 2: "lastDateAfter pre = lastDataRowDate pre"
    by (rule lastDateAfter_lastDataRowDate)
  have 3: "sessionsOfRow courses ?slots pre r = rowSessions courses ?slots dt r
           \<and> (\<forall>s \<in> set (sessionsOfRow courses ?slots pre r). date s = dt)"
    if "hasData r \<and> rowDate r = None \<and> lastDataRowDate pre = Some dt"
  proof -
    from that have eq: "sessionsOfRow courses ?slots pre r = rowSessions courses ?slots dt r"
      by (simp add: sessionsOfRow_def 2 processRow_def)
    moreover have "date s = dt" if "s \<in> set (rowSessions courses ?slots dt r)" for s
      using rowSessions_elem [OF that] parseCell_date by blast
    ultimately show ?thesis by simp
  qed
  have 4: "sessionsOfRow courses ?slots pre r = []"
    if "rowDate r = None \<and> lastDataRowDate pre = None"
    using that by (simp add: sessionsOfRow_def 2 processRow_def)
  have 5: "sessionsOfRow courses ?slots pre r = []" if "\<not> hasData r"
    using that by (simp add: sessionsOfRow_def processRow_def)
  from 1 2 3 4 5 show ?thesis by blast
qed

lemma exScenarioGrid_parsed:
  "parseSchedule (Some exScenarioGrid) exCourses = Inr
     [\<lparr>date = ''05-Jan-2026'', timeSlot = ''09:00 am - 10:15 am'',
         courseCode = ''DT'', sessionNumber = ''3'', sessSection = Some A,
         raw = ''DT 3 A'', isCancelled = False\<rparr>,
      \<lparr>date = ''05-Jan-2026'', timeSlot = ''Slot 2'', courseCode = ''DT'',
         sessionNumber = ''3'', sessSection = Some B, raw = ''DT 3'',
         isCancelled = False\<rparr>]"
  by code_simp

text \<open>
  C8.  Every session that \<^verbatim>\<open>parseSchedule\<close> returns comes from a slot cell of a data
  row of the sheet, and its section is the one the rule gives for the tokens of the cell
  text and the trimmed section cell (column 2) of that row: the third token upper-cased
  if that is \<^verbatim>\<open>A\<close> or \<^verbatim>\<open>B\<close>, otherwise the row value if that is exactly \<^verbatim>\<open>A\<close> or
  \<^verbatim>\<open>B\<close>, otherwise null.  Conversely, in a well-formed sheet each session that the cell
  callback gives for a slot cell of a dated data row is among the sessions returned.  In
  particular \<^verbatim>\<open>parseSchedule\<close>, on a sheet whose data row has section \<^verbatim>\<open>B\<close> and the
  cells \<^verbatim>\<open>DT 3 A\<close> and \<^verbatim>\<open>DT 3\<close>, returns a session \<^verbatim>\<open>DT\<close>, \<^verbatim>\<open>3\<close> of section \<^verbatim>\<open>A\<close>
  for the first and one of section \<^verbatim>\<open>B\<close> for the second.
\<close>

theorem parseSchedule_section:
  "(parseSchedule data courses = Inr sessions \<and> s \<in> set sessions \<longrightarrow>
      (\<exists>d rows headerRow.
          data = Some d \<and> rowData d = Some rows \<and> rows ! 1 = Some headerRow
        \<and> (\<exists>row \<in> set (drop 2 rows). \<exists>i < length (timeSlots headerRow). \<exists>c text.
              rowCell row (i + 3) = Some c \<and> cellText c = Some text \<and> raw s = text
            \<and> sessSection s = sectionBySpec (splitWs (trim text))
                                 (map_option trim (optCellText (rowCell row 2))))))
   \<and> (rowData g = Some grows \<and> 3 \<le> length grows \<and> grows ! 1 = Some hdr
        \<and> r \<in> set (drop 2 grows) \<and> hasData r \<and> rowDate r = Some dt
        \<and> j < length (timeSlots hdr)
        \<and> parseCell courses dt (map_option trim (optCellText (rowCell r 2)))
             (timeSlots hdr ! j) (rowCell r (j + 3)) = Some s'
       \<longrightarrow> (\<exists>out. parseSchedule (Some g) courses = Inr out \<and> s' \<in> set out
                \<and> sessSection s' = sectionBySpec (splitWs (trim (raw s')))
                                      (map_option trim (optCellText (rowCell r 2)))))
   \<and> map_sum id (map (\<lambda>s. (raw s, courseCode s, sessionNumber s, sessSection s)))
        (parseSchedule (Some exScenarioGrid) exCourses)
       = Inr [(''DT 3 A'', ''DT'', ''3'', Some A), (''DT 3'', ''DT'', ''3'', Some B)]"
proof (intro conjI impI)
  assume a: "parseSchedule data courses = Inr sessions \<and> s \<in> set sessions"
  then obtain d rows headerRow where d: "data = Some d" "rowData d = Some rows"
      "rows ! 1 = Some headerRow"
    and s: "s \<in> set (parseRows courses (timeSlots headerRow) None (drop 2 rows))"
    by (auto simp: parseSchedule_def split: option.splits if_splits)
  from parseRows_elem [OF s] obtain row dt where row: "row \<in> set (drop 2 rows)"
    and "s \<in> set (rowSessions courses (timeSlots headerRow) dt row)"
    by blast
  then obtain i where i: "i < length (timeSlots headerRow)"
    and p: "parseCell courses dt (map_option trim (optCellText (rowCell row 2)))
              (timeSlots headerRow ! i) (rowCell row (i + 3)) = Some s"
    using rowSessions_elem by blast
  from p obtain c where c: "rowCell row (i + 3) = Some c"
    by (cases "rowCell row (i + 3)") (auto simp: parseCell_def)
  from p c parseCell_section [of courses dt _ "timeSlots headerRow ! i" c s]
  obtain tx where "cellText c = Some tx" "raw s = tx"
    "sessSection s = sectionBySpec (splitWs (trim tx))
                       (map_option trim (optCellText (rowCell row 2)))"
    by auto
  with d row i c
  show "\<exists>d rows headerRow.
          data = Some d \<and> rowData d = Some rows \<and> rows ! 1 = Some headerRow
        \<and> (\<exists>row \<in> set (drop 2 rows). \<exists>i < length (timeSlots headerRow). \<exists>c text.
              rowCell row (i + 3) = Some c \<and> cellText c = Some text \<and> raw s = text
            \<and> sessSection s = sectionBySpec (splitWs (trim text))
                                 (map_option trim (optCellText (rowCell row 2))))"
    by blast
next
  assume a: "rowData g = Some grows \<and> 3 \<le> length grows \<and> grows ! 1 = Some hdr
        \<and> r \<in> set (drop 2 grows) \<and> hasData r \<and> rowDate r = Some dt
        \<and> j < length (timeSlots hdr)
        \<and> parseCell courses dt (map_option trim (optCellText (rowCell r 2)))
             (timeSlots hdr ! j) (rowCell r (j + 3)) = Some s'"
  then have out: "parseSchedule (Some g) courses
      = Inr (parseRows courses (timeSlots hdr) None (drop 2 grows))"
    by (simp add: parseSchedule_def)
  from a have "s' \<in> set (rowSessions courses (timeSlots hdr) dt r)"
    by (blast intro: rowSessions_intro)
  with a have mem: "s' \<in> set (parseRows courses (timeSlots hdr) None (drop 2 grows))"
    using parseRows_dated by blast
  from a obtain c where c: "rowCell r (j + 3) = Some c"
    by (cases "rowCell r (j + 3)") (auto simp: parseCell_def)
  with a parseCell_section [of courses dt _ "timeSlots hdr ! j" c s']
  have "sessSection s' = sectionBySpec (splitWs (trim (raw s')))
                           (map_option trim (optCellText (rowCell r 2)))"
    by auto
  with out mem
  show "\<exists>out. parseSchedule (Some g) courses = Inr out \<and> s' \<in> set out
                \<and> sessSection s' = sectionBySpec (splitWs (trim (raw s')))
                                      (map_option trim (optCellText (rowCell r 2)))"
    by blast
next
  show "map_sum id (map (\<lambda>s. (raw s, courseCode s, sessionNumber s, sessSection s)))
        (parseSchedule (Some exScenarioGrid) exCourses)
       = Inr [(''DT 3 A'', ''DT'', ''3'', Some A), (''DT 3'', ''DT'', ''3'', Some B)]"
    by (simp add: exScenarioGrid_parsed)
qed

lemma exGrid_parsed:
  "parseSchedule (Some exGrid) exCourses = Inr
     [\<lparr>date = ''05-Jan-2026'', timeSlot = ''09:00 am - 10:15 am'',
         courseCode = ''DT'', sessionNumber = ''3'', sessSection = Some A,
         raw = ''DT 3 A'', isCancelled = False\<rparr>,
      \<lparr>date = ''05-Jan-2026'', timeSlot = ''Slot 2'', courseCode = ''DT'',
         sessionNumber = ''3'', sessSection = Some B, raw = ''DT 3'',
         isCancelled = False\<rparr>,
      \<lparr>date = ''05-Jan-2026'', timeSlot = ''09:00 am - 10:15 am'',
         courseCode = ''GT'', sessionNumber = ''4'', sessSection = Some B,
         raw = ''(GT) 4 b'', isCancelled = True\<rparr>,
      \<lparr>date = ''05-Jan-2026'', timeSlot = ''Slot 3'', courseCode = ''GT'',
         sessionNumber = [], sessSection = Some A, raw = ''GT'',
         isCancelled = False\<rparr>]"
  by code_simp

lemma exGrid_rows:
  "rowData exGrid = Some [Some [textCell ''Time Table''], Some exHeader, exRowB, None, exRowA]"
  "3 \<le> length [Some [textCell ''Time Table''], Some exHeader, exRowB, None, exRowA]"
  "[Some [textCell ''Time Table''], Some exHeader, exRowB, None, exRowA] ! 1 = Some exHeader"
  by (simp_all add: exGrid_def)

lemma timeSlots_exHeader: "timeSlots exHeader = [''09:00 am - 10:15 am'', ''Slot 2'', ''Slot 3'']"
  by code_simp

theorem parseSchedule_merged_dates_witness:
  "hasData exRowA \<and> rowDate exRowA = None \<and> lastDataRowDate [exRowB, None] = Some ''05-Jan-2026''
   \<and> map (\<lambda>s. (date s, courseCode s))
        (sessionsOfRow exCourses (timeSlots exHeader) [exRowB, None] exRowA)
       = [(''05-Jan-2026'', ''GT''), (''05-Jan-2026'', ''GT'')]
   \<and> sessionsOfRow exCourses (timeSlots exHeader) [exRowB, None] exRowA
       = rowSessions exCourses (timeSlots exHeader) ''05-Jan-2026'' exRowA
   \<and> lastDataRowDate [None] = None
   \<and> sessionsOfRow exCourses (timeSlots exHeader) [None] exRowA = []
   \<and> \<not> hasData exDateOnly
   \<and> sessionsOfRow exCourses (timeSlots exHeader) [exRowB] exDateOnly = []"
proof -
  have h: "hasData exRowA" "rowDate exRowA = None"
    "lastDataRowDate [exRowB, None] = Some ''05-Jan-2026''"
    "lastDataRowDate [None] = None" "\<not> hasData exDateOnly"
    by code_simp+
  have d1: "drop 2 [Some [textCell ''Time Table''], Some exHeader, exRowB, None, exRowA]
              = [exRowB, None] @ exRowA # []"
    by simp
  have d2: "drop 2 [Some [textCell ''Time Table''], Some exHeader, None, exRowA]
              = [None] @ exRowA # []"
    by simp
  have d3: "drop 2 [Some [textCell ''Time Table''], Some exHeader, exRowB, exDateOnly]
              = [exRowB] @ exDateOnly # []"
    by simp
  have m: "map (\<lambda>s. (date s, courseCode s))
        (rowSessions exCourses (timeSlots exHeader) ''05-Jan-2026'' exRowA)
       = [(''05-Jan-2026'', ''GT''), (''05-Jan-2026'', ''GT'')]"
    by code_simp
  note a = parseSchedule_merged_dates
      [where courses = exCourses and dt = "''05-Jan-2026''", OF exGrid_rows d1]
  note b = parseSchedule_merged_dates
      [where courses = exCourses and headerRow = exHeader
         and d = "\<lparr>rowData = Some [Some [textCell ''Time Table''], Some exHeader, None, exRowA]\<rparr>",
       OF _ _ _ d2]
  note c = parseSchedule_merged_dates
      [where courses = exCourses and headerRow = exHeader
         and d = "\<lparr>rowData = Some [Some [textCell ''Time Table''], Some exHeader, exRowB, exDateOnly]\<rparr>",
       OF _ _ _ d3]
  from a h m have "sessionsOfRow exCourses (timeSlots exHeader) [exRowB, None] exRowA
       = rowSessions exCourses (timeSlots exHeader) ''05-Jan-2026'' exRowA"
    by simp
  moreover from b h have "sessionsOfRow exCourses (timeSlots exHeader) [None] exRowA = []"
    by simp
  moreover from c h have "sessionsOfRow exCourses (timeSlots exHeader) [exRowB] exDateOnly = []"
    by simp
  ultimately show ?thesis using h m by simp
qed

theorem parseSchedule_section_witness:
  "(\<exists>sessions s. parseSchedule (Some exScenarioGrid) exCourses = Inr sessions
       \<and> s \<in> set sessions \<and> raw s = ''DT 3 A'' \<and> sessSection s = Some A
       \<and> (\<exists>row \<in> set (drop 2 (the (rowData exScenarioGrid))).
             \<exists>i < length (timeSlots exHeader). \<exists>c.
                rowCell row (i + 3) = Some c \<and> cellText c = Some ''DT 3 A''
              \<and> sectionBySpec (splitWs (trim ''DT 3 A''))
                   (map_option trim (optCellText (rowCell row 2))) = Some A))
   \<and> (\<exists>out s'. parseCell exCourses ''05-Jan-2026'' (Some ''B'') ''Slot 2''
                   (Some (textCell ''DT 3'')) = Some s'
       \<and> parseSchedule (Some exScenarioGrid) exCourses = Inr out \<and> s' \<in> set out
       \<and> sessSection s' = Some B
       \<and> sectionBySpec (splitWs (trim ''DT 3'')) (Some ''B'') = Some B)"
proof -
  define s1 where "s1 = \<lparr>date = ''05-Jan-2026'', timeSlot = ''09:00 am - 10:15 am'',
         courseCode = ''DT'', sessionNumber = ''3'', sessSection = Some A,
         raw = ''DT 3 A'', isCancelled = False\<rparr>"
  define s2 where "s2 = \<lparr>date = ''05-Jan-2026'', timeSlot = ''Slot 2'', courseCode = ''DT'',
         sessionNumber = ''3'', sessSection = Some B, raw = ''DT 3'',
         isCancelled = False\<rparr>"
  define row :: Row where "row = Some [textCell ''05-Jan-2026'', textCell ''CR1'', textCell ''B'',
                    textCell ''DT 3 A'', textCell ''DT 3'']"
  define rows where "rows = [Some [textCell ''Time Table''], Some exHeader, row]"
  note T = parseSchedule_section
      [where data = "Some exScenarioGrid" and courses = exCourses and sessions = "[s1, s2]"
         and s = s1 and g = exScenarioGrid and grows = rows and hdr = exHeader
         and r = row and dt = "''05-Jan-2026''" and j = 1 and s' = s2]
  have rd: "rowData exScenarioGrid = Some rows"
    by (simp add: exScenarioGrid_def rows_def row_def)
  have dr: "drop 2 rows = [row]"
    by (simp add: rows_def)
  have p: "parseSchedule (Some exScenarioGrid) exCourses = Inr [s1, s2]"
    unfolding s1_def s2_def by (rule exScenarioGrid_parsed)
  have rs: "map_option trim (optCellText (rowCell row 2)) = Some ''B''"
    unfolding row_def by code_simp
  have c: "parseCell exCourses ''05-Jan-2026'' (Some ''B'') ''Slot 2''
             (Some (textCell ''DT 3'')) = Some s2"
    unfolding s2_def by code_simp
  have sp: "sectionBySpec (splitWs (trim ''DT 3'')) (Some ''B'') = Some B"
    by code_simp
  have f: "raw s1 = ''DT 3 A''" "sessSection s1 = Some A" "sessSection s2 = Some B"
    by (simp_all add: s1_def s2_def)
  have "parseSchedule (Some exScenarioGrid) exCourses = Inr [s1, s2] \<and> s1 \<in> set [s1, s2]"
    using p by simp
  from T [THEN conjunct1, THEN mp, OF this]
  obtain d rows' headerRow where d: "Some exScenarioGrid = Some d" "rowData d = Some rows'"
      "rows' ! 1 = Some headerRow"
    and ex: "\<exists>row \<in> set (drop 2 rows'). \<exists>i < length (timeSlots headerRow). \<exists>c tx.
              rowCell row (i + 3) = Some c \<and> cellText c = Some tx \<and> raw s1 = tx
            \<and> sessSection s1 = sectionBySpec (splitWs (trim tx))
                                 (map_option trim (optCellText (rowCell row 2)))"
    by blast
  from d rd have r': "rows' = rows" by simp
  from r' d have hr: "headerRow = exHeader" by (simp add: rows_def)
  from ex obtain r0 i c0 tx where r0: "r0 \<in> set (drop 2 rows')"
    and i: "i < length (timeSlots headerRow)"
    and c0: "rowCell r0 (i + 3) = Some c0" "cellText c0 = Some tx" "raw s1 = tx"
    and sec: "sessSection s1 = sectionBySpec (splitWs (trim tx))
                                 (map_option trim (optCellText (rowCell r0 2)))"
    by blast
  from c0 f have tx: "cellText c0 = Some ''DT 3 A''" by simp
  from sec c0 f have sec': "sectionBySpec (splitWs (trim ''DT 3 A''))
                   (map_option trim (optCellText (rowCell r0 2))) = Some A"
    by simp
  from r0 r' rd have r0': "r0 \<in> set (drop 2 (the (rowData exScenarioGrid)))" by simp
  from i hr have i': "i < length (timeSlots exHeader)" by simp
  from r0' i' c0(1) tx sec'
  have 1: "\<exists>row \<in> set (drop 2 (the (rowData exScenarioGrid))).
             \<exists>i < length (timeSlots exHeader). \<exists>c.
                rowCell row (i + 3) = Some c \<and> cellText c = Some ''DT 3 A''
              \<and> sectionBySpec (splitWs (trim ''DT 3 A''))
                   (map_option trim (optCellText (rowCell row 2))) = Some A"
    by blast
  have "rowData exScenarioGrid = Some rows \<and> 3 \<le> length rows \<and> rows ! 1 = Some exHeader
        \<and> row \<in> set (drop 2 rows) \<and> hasData row \<and> rowDate row = Some ''05-Jan-2026''
        \<and> 1 < length (timeSlots exHeader)
        \<and> parseCell exCourses ''05-Jan-2026'' (map_option trim (optCellText (rowCell row 2)))
             (timeSlots exHeader ! 1) (rowCell row (1 + 3)) = Some s2"
  proof (intro conjI)
    show "rowData exScenarioGrid = Some rows" by (rule rd)
    show "3 \<le> length rows" by (simp add: rows_def)
    show "rows ! 1 = Some exHeader" by (simp add: rows_def)
    show "row \<in> set (drop 2 rows)" by (simp add: dr)
    show "hasData row" unfolding row_def by code_simp
    show "rowDate row = Some ''05-Jan-2026''" unfolding row_def by code_simp
    show "1 < length (timeSlots exHeader)" by code_simp
    show "parseCell exCourses ''05-Jan-2026'' (map_option trim (optCellText (rowCell row 2)))
             (timeSlots exHeader ! 1) (rowCell row (1 + 3)) = Some s2"
      unfolding row_def s2_def by code_simp
  qed
  from T [THEN conjunct2, THEN conjunct1, THEN mp, OF this]
  obtain out where 2: "parseSchedule (Some exScenarioGrid) exCourses = Inr out" "s2 \<in> set out"
    by blast
  from p f 1 have "\<exists>sessions s. parseSchedule (Some exScenarioGrid) exCourses = Inr sessions
       \<and> s \<in> set sessions \<and> raw s = ''DT 3 A'' \<and> sessSection s = Some A
       \<and> (\<exists>row \<in> set (drop 2 (the (rowData exScenarioGrid))).
             \<exists>i < length (timeSlots exHeader). \<exists>c.
                rowCell row (i + 3) = Some c \<and> cellText c = Some ''DT 3 A''
              \<and> sectionBySpec (splitWs (trim ''DT 3 A''))
                   (map_option trim (optCellText (rowCell row 2))) = Some A)"
    by (intro exI [of _ "[s1, s2]"] exI [of _ s1]) simp
  moreover from 2 c sp f have "\<exists>out s'. parseCell exCourses ''05-Jan-2026'' (Some ''B'') ''Slot 2''
                   (Some (textCell ''DT 3'')) = Some s'
       \<and> parseSchedule (Some exScenarioGrid) exCourses = Inr out \<and> s' \<in> set out
       \<and> sessSection s' = Some B
       \<and> sectionBySpec (splitWs (trim ''DT 3'')) (Some ''B'') = Some B"
    by (intro exI [of _ out] exI [of _ s2]) simp
  ultimately show ?thesis by (rule conjI)
qed

section \<open>Roster resolver (lib/sheets.ts)\<close>

text \<open>\<^verbatim>\<open>r[3]?.trim().toLowerCase()\<close>: the normalised email cell of a roster row.\<close>

definition rowEmail :: "string list \<Rightarrow> string option" where
  "rowEmail row = map_option (\<lambda>v. toLowerCase (trim v)) (cellAt row 3)"

text \<open>
  \<^verbatim>\<open>parseStudentProfile(email, studentRows, electiveRowsMap)\<close>.  The elective rosters are
  the entries of \<^verbatim>\<open>electiveRowsMap\<close> in the order of \<^verbatim>\<open>Object.entries\<close>.  The
  declared result type is \<^verbatim>\<open>UserProfile | null\<close>; \<open>None\<close> stands for \<^verbatim>\<open>null\<close>.
\<close>

definition parseStudentProfile ::
    "string \<Rightarrow> string list list \<Rightarrow> (string \<times> string list list) list \<Rightarrow> UserProfile option" where
  "parseStudentProfile mail studentRows electiveRowsMap =
     (let targetEmail = toLowerCase (trim mail);
          studentRow = find (\<lambda>row. rowEmail row = Some targetEmail) studentRows;
          sect = (case studentRow of
                    None \<Rightarrow> A
                  | Some row \<Rightarrow>
                     (case map_option (\<lambda>v. toUpperCase (trim v)) (cellAt row 9) of
                        None \<Rightarrow> A
                      | Some secVal \<Rightarrow>
                          if secVal = ''A'' then A else if secVal = ''B'' then B else A));
          els = map fst
                  (filter (\<lambda>(cc, rows). Some targetEmail \<in> set (map rowEmail rows))
                     electiveRowsMap)
      in Some \<lparr>email = mail, userSection = sect, electives = els\<rparr>)"

section \<open>Calendar sync endpoint (app/api/calendar/sync/route.ts)\<close>

text \<open>
  The part of the handler between the fetch and the call of \<^verbatim>\<open>syncToCalendar\<close>: the
  classes passed on.  The handler reads the roster rows from \<^verbatim>\<open>data.studentMaster\<close>;
  where the fetched data has no such field, \<^verbatim>\<open>studentRows.find\<close> throws.  A \<^verbatim>\<open>null\<close>
  profile would make the filter throw on \<^verbatim>\<open>userProfile.electives\<close>.  The elective rosters
  passed to \<^verbatim>\<open>parseStudentProfile\<close> are the empty object.
\<close>

definition syncRouteClasses ::
    "string \<Rightarrow> string list list option \<Rightarrow> ClassSession list \<Rightarrow> Courses
       \<Rightarrow> JsError + ClassSession list" where
  "syncRouteClasses mail studentMaster schedule courses =
     (case studentMaster of
        None \<Rightarrow> Inl TypeError
      | Some studentRows \<Rightarrow>
         (case parseStudentProfile mail studentRows [] of
            None \<Rightarrow> Inl TypeError
          | Some userProfile \<Rightarrow> Inr (filterClassesForUser schedule courses userProfile)))"

text \<open>A sample roster row, with the email in column 3 and the section in column 9.\<close>

definition rosterRow :: "string \<Rightarrow> string \<Rightarrow> string list" where
  "rosterRow mail sec = [''1'', ''R001'', ''Name'', mail, [], [], [], [], [], sec]"

section \<open>Properties of the roster resolver and of the sync endpoint\<close>

text \<open>
  C9, as stated, fails: the section cell is trimmed and upper-cased before it is
  compared, so a matching row whose column-9 value is \<^verbatim>\<open>b\<close> (neither \<^verbatim>\<open>A\<close> nor
  \<^verbatim>\<open>B\<close>) gives section \<^verbatim>\<open>B\<close>, not the default.
\<close>

theorem parseStudentProfile_default_counterexample:
  "rowEmail (rosterRow ''Asha@Example.org '' ''b'') = Some (toLowerCase (trim ''asha@example.org''))
   \<and> cellAt (rosterRow ''Asha@Example.org '' ''b'') 9 = Some ''b''
   \<and> ''b'' \<noteq> ''A'' \<and> ''b'' \<noteq> ''B''
   \<and> map_option userSection
        (parseStudentProfile ''asha@example.org'' [rosterRow ''Asha@Example.org '' ''b''] [])
       = Some B"
  by code_simp

text \<open>
  C9, amended.  If no section-roster row has an email cell (column 3, trimmed, compared
  without regard to case) equal to the target email, or the first such row has a
  column-9 value that, trimmed and upper-cased, is neither \<^verbatim>\<open>A\<close> nor \<^verbatim>\<open>B\<close> (or has no
  column 9), then \<^verbatim>\<open>parseStudentProfile\<close> returns a profile, not \<^verbatim>\<open>null\<close>, with section
  \<^verbatim>\<open>A\<close>; if moreover no elective roster has a row with that email, the electives of
  the profile are empty.
\<close>

theorem parseStudentProfile_default:
  "(find (\<lambda>row. rowEmail row = Some (toLowerCase (trim mail))) studentRows = None
      \<or> (\<exists>row. find (\<lambda>row. rowEmail row = Some (toLowerCase (trim mail))) studentRows = Some row
              \<and> map_option (\<lambda>v. toUpperCase (trim v)) (cellAt row 9) \<noteq> Some ''A''
              \<and> map_option (\<lambda>v. toUpperCase (trim v)) (cellAt row 9) \<noteq> Some ''B'')
    \<longrightarrow> (\<exists>p. parseStudentProfile mail studentRows electiveRowsMap = Some p
             \<and> userSection p = A
             \<and> ((\<forall>(c, rows) \<in> set electiveRowsMap.
                    Some (toLowerCase (trim mail)) \<notin> set (map rowEmail rows))
                  \<longrightarrow> electives p = [])))"
  by (auto simp: parseStudentProfile_def Let_def filter_empty_conv split: option.splits)

theorem parseStudentProfile_default_witness:
  "find (\<lambda>row. rowEmail row = Some (toLowerCase (trim ''zed@example.org'')))
        [rosterRow ''asha@example.org'' ''B''] = None
   \<and> Some (toLowerCase (trim ''zed@example.org''))
        \<notin> set (map rowEmail [rosterRow ''asha@example.org'' ''B''])
   \<and> parseStudentProfile ''zed@example.org'' [rosterRow ''asha@example.org'' ''B'']
        [(''GT'', [rosterRow ''asha@example.org'' ''B''])]
       = Some \<lparr>email = ''zed@example.org'', userSection = A, electives = []\<rparr>
   \<and> find (\<lambda>row. rowEmail row = Some (toLowerCase (trim ''asha@example.org'')))
        [rosterRow ''asha@example.org'' ''C'', rosterRow ''asha@example.org'' ''B'']
       = Some (rosterRow ''asha@example.org'' ''C'')
   \<and> map_option userSection
        (parseStudentProfile ''asha@example.org''
           [rosterRow ''asha@example.org'' ''C'', rosterRow ''asha@example.org'' ''B''] [])
       = Some A"
proof -
  have f1: "find (\<lambda>row. rowEmail row = Some (toLowerCase (trim ''zed@example.org'')))
        [rosterRow ''asha@example.org'' ''B''] = None"
    by code_simp
  have e1: "Some (toLowerCase (trim ''zed@example.org''))
        \<notin> set (map rowEmail [rosterRow ''asha@example.org'' ''B''])"
    by code_simp
  have f2: "find (\<lambda>row. rowEmail row = Some (toLowerCase (trim ''asha@example.org'')))
        [rosterRow ''asha@example.org'' ''C'', rosterRow ''asha@example.org'' ''B'']
       = Some (rosterRow ''asha@example.org'' ''C'')"
    by code_simp
  have c2: "map_option (\<lambda>v. toUpperCase (trim v)) (cellAt (rosterRow ''asha@example.org'' ''C'') 9)
       = Some ''C''"
    by code_simp
  from parseStudentProfile_default
         [of "''zed@example.org''" "[rosterRow ''asha@example.org'' ''B'']"
             "[(''GT'', [rosterRow ''asha@example.org'' ''B''])]"] f1 e1
  have "\<exists>p. parseStudentProfile ''zed@example.org'' [rosterRow ''asha@example.org'' ''B'']
               [(''GT'', [rosterRow ''asha@example.org'' ''B''])] = Some p
           \<and> userSection p = A \<and> electives p = []"
    by auto
  then have 1: "parseStudentProfile ''zed@example.org'' [rosterRow ''asha@example.org'' ''B'']
        [(''GT'', [rosterRow ''asha@example.org'' ''B''])]
       = Some \<lparr>email = ''zed@example.org'', userSection = A, electives = []\<rparr>"
    by (auto simp: parseStudentProfile_def Let_def)
  from parseStudentProfile_default
         [of "''asha@example.org''"
             "[rosterRow ''asha@example.org'' ''C'', rosterRow ''asha@example.org'' ''B'']" "[]"]
       f2 c2
  have 2: "map_option userSection
        (parseStudentProfile ''asha@example.org''
           [rosterRow ''asha@example.org'' ''C'', rosterRow ''asha@example.org'' ''B''] [])
       = Some A"
    by auto
  from f1 e1 1 f2 2 show ?thesis by simp
qed

text \<open>
  The scenario of the specification: with the course \<^verbatim>\<open>GT\<close> of type \<^verbatim>\<open>Elective\<close>, a
  \<^verbatim>\<open>GT\<close> session is kept for a profile whose electives hold \<^verbatim>\<open>GT\<close> and dropped for a
  profile whose electives do not.
\<close>

lemma filterClassesForUser_scenario:
  "filterClassesForUser [exSession ''GT'' ''1''] exCourses
       \<lparr>email = ''asha@example.org'', userSection = A, electives = [''GT'']\<rparr>
     = [exSession ''GT'' ''1'']"
  "filterClassesForUser [exSession ''GT'' ''1''] exCourses
       \<lparr>email = ''asha@example.org'', userSection = A, electives = []\<rparr>
     = []"
  by code_simp+

text \<open>
  C10.  On the sync path the profile is built from an empty map of elective rosters, so
  its electives are empty, whatever the email and the roster rows; and whenever the
  handler gets as far as \<^verbatim>\<open>syncToCalendar\<close>, no class passed to it belongs to a course
  of type \<^verbatim>\<open>Elective\<close> of the course mapping.
\<close>

theorem syncRoute_no_electives:
  "(\<exists>p. parseStudentProfile mail studentRows [] = Some p \<and> electives p = [])
   \<and> (syncRouteClasses mail studentMaster schedule courses = Inr myClasses
        \<longrightarrow> (\<forall>s \<in> set myClasses. \<forall>c. courses (courseCode s) = Some c
                                         \<longrightarrow> type c \<noteq> ''Elective''))"
  by (auto simp: syncRouteClasses_def parseStudentProfile_def Let_def filterClassesForUser_def
        keepSession_def split: option.splits)

lemma syncRoute_example:
  "syncRouteClasses ''asha@example.org'' (Some [rosterRow ''asha@example.org'' ''B''])
       [exSession ''DT'' ''1'', exSession ''GT'' ''1'', exSession ''XX'' ''1''] exCourses
     = Inr [exSession ''DT'' ''1'', exSession ''XX'' ''1'']"
  by code_simp

theorem syncRoute_no_electives_witness:
  "syncRouteClasses ''asha@example.org'' (Some [rosterRow ''asha@example.org'' ''B''])
       [exSession ''DT'' ''1'', exSession ''GT'' ''1'', exSession ''XX'' ''1''] exCourses
     = Inr [exSession ''DT'' ''1'', exSession ''XX'' ''1'']
   \<and> map_option type (exCourses ''GT'') = Some ''Elective''
   \<and> exSession ''GT'' ''1'' \<notin> set [exSession ''DT'' ''1'', exSession ''XX'' ''1'']
   \<and> map_option type (exCourses (courseCode (exSession ''DT'' ''1''))) = Some ''Core''
   \<and> exCourses (courseCode (exSession ''XX'' ''1'')) = None"
proof -
  have g: "map_option type (exCourses ''GT'') = Some ''Elective''"
    "exSession ''GT'' ''1'' \<notin> set [exSession ''DT'' ''1'', exSession ''XX'' ''1'']"
    "map_option type (exCourses (courseCode (exSession ''DT'' ''1''))) = Some ''Core''"
    "exCourses (courseCode (exSession ''XX'' ''1'')) = None"
    by code_simp+
  from syncRoute_no_electives
         [of "''asha@example.org''" "[]" "Some [rosterRow ''asha@example.org'' ''B'']"
             "[exSession ''DT'' ''1'', exSession ''GT'' ''1'', exSession ''XX'' ''1'']" exCourses
             "[exSession ''DT'' ''1'', exSession ''XX'' ''1'']"]
       syncRoute_example g
  show ?thesis by simp
qed

section \<open>Calendar reconciler (lib/calendar.ts)\<close>

text \<open>
  The request body of an event, which is also what the calendar stores for it:
  \<^verbatim>\<open>summary\<close>, \<^verbatim>\<open>description\<close>, \<^verbatim>\<open>start.dateTime\<close>, \<^verbatim>\<open>end.dateTime\<close> and the private
  extended property \<^verbatim>\<open>signature\<close>, which an event written by someone else may lack.  The
  two times are held as the instants (milliseconds since the epoch) that the ISO strings
  of the requests denote; \<^verbatim>\<open>toISOString\<close> gives different strings for different
  instants.  All events here carry the private property \<^verbatim>\<open>source = "ipm-tracker"\<close>.
\<close>

record EventBody =
  summary :: string
  description :: string
  startDateTime :: int
  endDateTime :: int
  evSignature :: "string option"

record CalEvent =
  evId :: nat
  evBody :: EventBody

text \<open>
  The remote calendar is the list of the tagged events, in the order in which the
  service lists them.  Event identifiers are numbers here (they are non-empty strings,
  hence truthy, at Google).  \<^verbatim>\<open>events.insert\<close> appends an event under an identifier not
  in use; \<^verbatim>\<open>events.update\<close> replaces the body of the event with the given identifier
  and \<^verbatim>\<open>events.delete\<close> removes it, and both are rejected when there is no such event.
\<close>

type_synonym Calendar = "CalEvent list"

definition freshId :: "Calendar \<Rightarrow> nat" where
  "freshId cal = Suc (fold max (map evId cal) 0)"

definition apiInsert :: "EventBody \<Rightarrow> Calendar \<Rightarrow> Calendar" where
  "apiInsert body cal = cal @ [\<lparr>evId = freshId cal, evBody = body\<rparr>]"

definition apiUpdate :: "nat \<Rightarrow> EventBody \<Rightarrow> Calendar \<Rightarrow> JsError + Calendar" where
  "apiUpdate i body cal =
     (if i \<in> set (map evId cal)
      then Inr (map (\<lambda>e. if evId e = i then e\<lparr>evBody := body\<rparr> else e) cal)
      else Inl ApiError)"

definition apiDelete :: "nat \<Rightarrow> Calendar \<Rightarrow> JsError + Calendar" where
  "apiDelete i cal =
     (if i \<in> set (map evId cal) then Inr (filter (\<lambda>e. evId e \<noteq> i) cal) else Inl ApiError)"

text \<open>
  \<^verbatim>\<open>events.list\<close> as the code calls it, with \<^verbatim>\<open>timeMin\<close> and with neither
  \<^verbatim>\<open>maxResults\<close> nor a page token: \<^verbatim>\<open>timeMin\<close> is an exclusive lower bound on the end
  of an event, and the answer is the first page, of at most 250 events.
\<close>

definition maxResults :: nat where
  "maxResults = 250"

definition visible :: "int \<Rightarrow> CalEvent \<Rightarrow> bool" where
  "visible timeMin e = (timeMin < endDateTime (evBody e))"

definition apiList :: "int \<Rightarrow> Calendar \<Rightarrow> CalEvent list" where
  "apiList timeMin cal = take maxResults (filter (visible timeMin) cal)"

text \<open>
  The clock and the number and date functions of the runtime are parameters:
  \<^verbatim>\<open>Date.parse\<close> (\<open>None\<close> for \<^verbatim>\<open>NaN\<close>), the time value of \<^verbatim>\<open>new Date()\<close>, the time value
  of today's midnight (\<^verbatim>\<open>now.setHours(0, 0, 0, 0)\<close>), \<^verbatim>\<open>Number\<close> (\<open>None\<close> for \<^verbatim>\<open>NaN\<close>),
  and the time value of a date after \<^verbatim>\<open>setHours(h, m)\<close>, which is \<open>None\<close> when the date is
  invalid, so that \<^verbatim>\<open>toISOString\<close> refuses it with a \<^verbatim>\<open>RangeError\<close> (an argument \<open>None\<close>
  is \<^verbatim>\<open>NaN\<close> or \<^verbatim>\<open>undefined\<close>).
\<close>

record Runtime =
  dateParse :: "string \<Rightarrow> int option"
  nowTime :: int
  todayMidnight :: int
  number :: "string \<Rightarrow> real option"
  setHours :: "int \<Rightarrow> real option \<Rightarrow> real option \<Rightarrow> int option"

text \<open>\<^verbatim>\<open>s.split(sep)\<close> for a separator of one character.\<close>

fun splitOn :: "char \<Rightarrow> string \<Rightarrow> string list" where
  "splitOn sep [] = [[]]"
| "splitOn sep (c # cs) =
     (if c = sep then [] # splitOn sep cs
      else (case splitOn sep cs of [] \<Rightarrow> [[c]] | p # ps \<Rightarrow> (c # p) # ps))"

text \<open>\<^verbatim>\<open>`${session.date}-${session.timeSlot}-${session.courseCode}`\<close>.\<close>

definition signature :: "ClassSession \<Rightarrow> string" where
  "signature session = date session @ ''-'' @ timeSlot session @ ''-'' @ courseCode session"

text \<open>
  \<^verbatim>\<open>existingMap\<close>: from each truthy signature to the identifier of the last listed event
  that carries it.
\<close>

definition existingMap :: "CalEvent list \<Rightarrow> (string \<rightharpoonup> nat)" where
  "existingMap existingEvents =
     foldl (\<lambda>m e. (case evSignature (evBody e) of
                      None \<Rightarrow> m
                    | Some sg \<Rightarrow> if sg = [] then m else m(sg \<mapsto> evId e)))
       Map.empty existingEvents"

text \<open>\<^verbatim>\<open>futureClasses\<close>: a date that does not parse compares false.\<close>

definition futureClasses :: "Runtime \<Rightarrow> ClassSession list \<Rightarrow> ClassSession list" where
  "futureClasses rt classes =
     filter (\<lambda>c. case dateParse rt (date c) of None \<Rightarrow> False | Some d \<Rightarrow> todayMidnight rt \<le> d)
       classes"

text \<open>\<^verbatim>\<open>const [h, m] = t.split(':').map(Number)\<close>.\<close>

definition hourMinute :: "Runtime \<Rightarrow> string \<Rightarrow> real option \<times> real option" where
  "hourMinute rt t =
     (case map (number rt) (splitOn CHR '':'' t) of
        [] \<Rightarrow> (None, None)
      | [h] \<Rightarrow> (h, None)
      | h # m # _ \<Rightarrow> (h, m))"

text \<open>
  \<^verbatim>\<open>course?.name\<close> for \<^verbatim>\<open>course = courses[k]\<close>, the empty string standing for
  \<^verbatim>\<open>undefined\<close>: the name of the course under an own key; under an inherited name the
  \<^verbatim>\<open>name\<close> of the inherited function, and nothing for the prototype object.
\<close>

definition courseName :: "Courses \<Rightarrow> string \<Rightarrow> string" where
  "courseName courses k =
     (case courses k of
        Some c \<Rightarrow> name c
      | None \<Rightarrow> if k = ''constructor'' then ''Object''
                else if k = ''__proto__'' then []
                else if k \<in> set objectPrototypeNames then k
                else [])"

text \<open>
  The construction of the event of a session.  A time slot without \<^verbatim>\<open>-\<close> leaves
  \<^verbatim>\<open>endTimeStr\<close> undefined, and \<^verbatim>\<open>endTimeStr.split\<close> throws.
\<close>

definition eventBody :: "Runtime \<Rightarrow> Courses \<Rightarrow> ClassSession \<Rightarrow> JsError + EventBody" where
  "eventBody rt courses session =
     (let summ = courseCode session @ '': ''
                   @ (if courseName courses (courseCode session) = [] then ''Class''
                      else courseName courses (courseCode session));
          descr = ''Session: '' @ sessionNumber session @ [CHR 0x0A] @ ''Section: ''
                   @ (case sessSection session of
                        None \<Rightarrow> ''Common'' | Some A \<Rightarrow> ''A'' | Some B \<Rightarrow> ''B'')
      in case map trim (splitOn CHR ''-'' (timeSlot session)) of
           [] \<Rightarrow> Inl TypeError
         | [startTimeStr] \<Rightarrow> Inl TypeError
         | startTimeStr # endTimeStr # _ \<Rightarrow>
             (case dateParse rt (date session) of
                None \<Rightarrow> Inl RangeError
              | Some startDate \<Rightarrow>
                 (case setHours rt startDate (fst (hourMinute rt startTimeStr))
                         (snd (hourMinute rt startTimeStr)) of
                    None \<Rightarrow> Inl RangeError
                  | Some st \<Rightarrow>
                     (case setHours rt startDate (fst (hourMinute rt endTimeStr))
                             (snd (hourMinute rt endTimeStr)) of
                        None \<Rightarrow> Inl RangeError
                      | Some en \<Rightarrow>
                          Inr \<lparr>summary = summ, description = descr, startDateTime = st,
                               endDateTime = en,
                               evSignature = Some (signature session)\<rparr>))))"

text \<open>
  The state of a run: the remote calendar, the calls made so far and the exception that
  ended the run, if any.
\<close>

datatype CalOp = OpInsert EventBody | OpUpdate nat EventBody | OpDelete nat

record SyncState =
  calendar :: Calendar
  calls :: "CalOp list"
  failure :: "JsError option"

text \<open>The body of the loop over \<^verbatim>\<open>futureClasses\<close>, for one session.\<close>

definition syncStep ::
    "Runtime \<Rightarrow> Courses \<Rightarrow> (string \<rightharpoonup> nat) \<Rightarrow> ClassSession \<Rightarrow> SyncState \<Rightarrow> SyncState" where
  "syncStep rt courses existing session st =
     (let existingEventId = existing (signature session)
      in if isCancelled session then
           (case existingEventId of
              None \<Rightarrow> st
            | Some i \<Rightarrow>
               (case apiDelete i (calendar st) of
                  Inl e \<Rightarrow> st\<lparr>failure := Some e\<rparr>
                | Inr cal \<Rightarrow> st\<lparr>calendar := cal, calls := calls st @ [OpDelete i]\<rparr>))
         else
           (case eventBody rt courses session of
              Inl e \<Rightarrow> st\<lparr>failure := Some e\<rparr>
            | Inr body \<Rightarrow>
               (case existingEventId of
                  Some i \<Rightarrow>
                   (case apiUpdate i body (calendar st) of
                      Inl e \<Rightarrow> st\<lparr>failure := Some e\<rparr>
                    | Inr cal \<Rightarrow> st\<lparr>calendar := cal, calls := calls st @ [OpUpdate i body]\<rparr>)
                | None \<Rightarrow>
                    st\<lparr>calendar := apiInsert body (calendar st),
                       calls := calls st @ [OpInsert body]\<rparr>)))"

fun syncLoop ::
    "Runtime \<Rightarrow> Courses \<Rightarrow> (string \<rightharpoonup> nat) \<Rightarrow> ClassSession list \<Rightarrow> SyncState \<Rightarrow> SyncState" where
  "syncLoop rt courses existing [] st = st"
| "syncLoop rt courses existing (session # rest) st =
     (let st' = syncStep rt courses existing session st
      in if failure st' \<noteq> None then st' else syncLoop rt courses existing rest st')"

text \<open>
  \<^verbatim>\<open>syncToCalendar(accessToken, classes, courses)\<close> against a remote calendar: the
  listing with \<^verbatim>\<open>timeMin = now\<close>, the map of the listed signatures, and the loop over
  the classes kept from today's midnight.
\<close>

definition syncToCalendar ::
    "Runtime \<Rightarrow> ClassSession list \<Rightarrow> Courses \<Rightarrow> Calendar \<Rightarrow> SyncState" where
  "syncToCalendar rt classes courses cal =
     syncLoop rt courses (existingMap (apiList (nowTime rt) cal)) (futureClasses rt classes)
       \<lparr>calendar = cal, calls = [], failure = None\<rparr>"

text \<open>
  A second call, made when the clock shows \<open>t2\<close> on the same day, on the calendar that a
  first call has left.
\<close>

definition secondRun ::
    "Runtime \<Rightarrow> int \<Rightarrow> ClassSession list \<Rightarrow> Courses \<Rightarrow> Calendar \<Rightarrow> SyncState" where
  "secondRun rt t2 classes courses cal =
     syncToCalendar (rt\<lparr>nowTime := t2\<rparr>) classes courses
       (calendar (syncToCalendar rt classes courses cal))"

fun isInsert :: "CalOp \<Rightarrow> bool" where
  "isInsert (OpInsert b) = True" | "isInsert c = False"
fun isUpdate :: "CalOp \<Rightarrow> bool" where
  "isUpdate (OpUpdate i b) = True" | "isUpdate c = False"

definition insertCount :: "SyncState \<Rightarrow> nat" where
  "insertCount st = length (filter isInsert (calls st))"

definition updateCount :: "SyncState \<Rightarrow> nat" where
  "updateCount st = length (filter isUpdate (calls st))"

text \<open>
  The loop, told apart from the calendar: the sessions it gets through before the
  construction of an event throws; the bodies of the sessions that are not cancelled, up
  to the first one whose construction throws, and that exception; and the identifiers
  that the cancelled sessions look up.
\<close>

fun processed :: "Runtime \<Rightarrow> Courses \<Rightarrow> ClassSession list \<Rightarrow> ClassSession list" where
  "processed rt courses [] = []"
| "processed rt courses (s # rest) =
     (if isCancelled s then s # processed rt courses rest
      else (case eventBody rt courses s of
              Inl e \<Rightarrow> []
            | Inr b \<Rightarrow> s # processed rt courses rest))"

fun plannedBodies :: "Runtime \<Rightarrow> Courses \<Rightarrow> ClassSession list \<Rightarrow> EventBody list" where
  "plannedBodies rt courses [] = []"
| "plannedBodies rt courses (s # rest) =
     (if isCancelled s then plannedBodies rt courses rest
      else (case eventBody rt courses s of
              Inl e \<Rightarrow> []
            | Inr b \<Rightarrow> b # plannedBodies rt courses rest))"

fun plannedFailure :: "Runtime \<Rightarrow> Courses \<Rightarrow> ClassSession list \<Rightarrow> JsError option" where
  "plannedFailure rt courses [] = None"
| "plannedFailure rt courses (s # rest) =
     (if isCancelled s then plannedFailure rt courses rest
      else (case eventBody rt courses s of
              Inl e \<Rightarrow> Some e
            | Inr b \<Rightarrow> plannedFailure rt courses rest))"




definition hasSig :: "string \<Rightarrow> CalEvent \<Rightarrow> bool" where
  "hasSig sg e = (evSignature (evBody e) = Some sg)"

text \<open>
  A sample runtime: a clock in UTC at 08:00 on 1 January 2026, with the values of
  \<^verbatim>\<open>Date.parse\<close>, \<^verbatim>\<open>Number\<close> and \<^verbatim>\<open>setHours\<close> on the strings of the sample sessions, which
  are held on 5 January 2026 from 09:00 to 10:15; a minute later; noon of 5 January
  2026; and the same runtime with the clock at 08:00 on 5 January 2026.
\<close>

definition exRuntime :: Runtime where
  "exRuntime =
     \<lparr>dateParse = (\<lambda>s. if s = ''05-Jan-2026'' then Some 1767571200000 else None),
      nowTime = 1767254400000,
      todayMidnight = 1767225600000,
      number = (\<lambda>s. if s = ''09'' then Some 9 else if s = ''10'' then Some 10
                     else if s = ''00'' then Some 0 else if s = ''15'' then Some 15 else None),
      setHours = (\<lambda>t h m.
          if t = 1767571200000 \<and> h = Some 9 \<and> m = Some 0 then Some 1767603600000
          else if t = 1767571200000 \<and> h = Some 10 \<and> m = Some 15 then Some 1767608100000
          else None)\<rparr>"

definition exLater :: int where
  "exLater = 1767254460000"

definition exNoon :: int where
  "exNoon = 1767614400000"

definition exMorning :: Runtime where
  "exMorning = exRuntime\<lparr>nowTime := 1767600000000, todayMidnight := 1767571200000\<rparr>"

definition exBody :: "string \<Rightarrow> EventBody" where
  "exBody n =
     \<lparr>summary = ''DT: Design Thinking'',
      description = ''Session: '' @ n @ [CHR 0x0A] @ ''Section: Common'',
      startDateTime = 1767603600000,
      endDateTime = 1767608100000,
      evSignature = Some ''05-Jan-2026-09:00 - 10:15-DT''\<rparr>"

definition exCancelled :: "string \<Rightarrow> string \<Rightarrow> ClassSession" where
  "exCancelled c n = (exSession c n)\<lparr>isCancelled := True\<rparr>"

text \<open>An event under the signature of the sample sessions of a course.\<close>

definition exEvent :: "nat \<Rightarrow> string \<Rightarrow> CalEvent" where
  "exEvent i c = \<lparr>evId = i, evBody = (exBody ''0'')\<lparr>evSignature := Some (signature (exSession c ''0''))\<rparr>\<rparr>"

text \<open>
  An event without a signature, and a calendar of 250 of them, each ending on 5 January
  2026 at 10:15.
\<close>

definition exOther :: "nat \<Rightarrow> CalEvent" where
  "exOther i = \<lparr>evId = i, evBody = (exBody ''0'')\<lparr>evSignature := None\<rparr>\<rparr>"


section \<open>Properties of the calendar reconciler\<close>

lemma signature_nonempty: "signature s \<noteq> []"
  by (simp add: signature_def)

lemma eventBody_signature:
  "eventBody rt courses s = Inr b \<Longrightarrow> evSignature b = Some (signature s)"
  by (auto simp: eventBody_def Let_def split: list.splits option.splits)

lemma existingMap_snoc:
  "existingMap (cal @ [e]) =
     (case evSignature (evBody e) of
        None \<Rightarrow> existingMap cal
      | Some sg \<Rightarrow> if sg = [] then existingMap cal else (existingMap cal)(sg \<mapsto> evId e))"
  unfolding existingMap_def by simp

lemma existingMap_last:
  "sg \<noteq> [] \<Longrightarrow>
     existingMap cal sg = (case filter (hasSig sg) cal of
                             [] \<Rightarrow> None
                           | x # xs \<Rightarrow> Some (evId (last (x # xs))))"
proof (induction cal rule: rev_induct)
  case Nil
  show ?case by (simp add: existingMap_def)
next
  case (snoc e cal)
  then show ?case
    by (auto simp: existingMap_snoc hasSig_def split: option.splits list.splits)
qed



lemma existingMap_found:
  "filter (hasSig (signature s)) L \<noteq> [] \<Longrightarrow>
     existingMap L (signature s) = Some (evId (last (filter (hasSig (signature s)) L)))"
  using existingMap_last [OF signature_nonempty, of L s] by (simp split: list.splits)

lemma existingMap_missing:
  "filter (hasSig (signature s)) L = [] \<Longrightarrow> existingMap L (signature s) = None"
  using existingMap_last [OF signature_nonempty, of L s] by simp

lemma fold_max_base: "n \<le> fold max xs (n::nat)"
proof (induction xs arbitrary: n)
  case Nil
  show ?case by simp
next
  case (Cons x xs)
  have "n \<le> max x n" by simp
  also have "\<dots> \<le> fold max xs (max x n)" by (rule Cons.IH)
  finally show ?case by simp
qed

lemma fold_max_elem: "i \<in> set xs \<Longrightarrow> i \<le> fold max xs (n::nat)"
proof (induction xs arbitrary: n)
  case Nil
  then show ?case by simp
next
  case (Cons x xs)
  show ?case
  proof (cases "i = x")
    case True
    have "x \<le> max x n" by simp
    also have "\<dots> \<le> fold max xs (max x n)" by (rule fold_max_base)
    finally show ?thesis using True by simp
  next
    case False
    with Cons show ?thesis by simp
  qed
qed

lemma freshId_fresh: "freshId cal \<notin> set (map evId cal)"
proof
  assume "freshId cal \<in> set (map evId cal)"
  then have "freshId cal \<le> fold max (map evId cal) 0" by (rule fold_max_elem)
  then show False by (simp add: freshId_def)
qed

lemma plannedBodies_elem:
  "b \<in> set (plannedBodies rt courses F) \<Longrightarrow>
     \<exists>s \<in> set F. \<not> isCancelled s \<and> eventBody rt courses s = Inr b"
  by (induction F) (auto split: if_splits sum.splits)






text \<open>The loop stops at the first session whose event cannot be built.\<close>

lemma processed_subset: "set (processed rt courses F) \<subseteq> set F"
  by (induction F) (auto split: sum.splits)








lemma syncLoop_inserts:
  assumes "\<forall>s \<in> set F. m (signature s) = None" and "failure st = None"
  shows "\<exists>E. calendar (syncLoop rt courses m F st) = calendar st @ E
           \<and> map evBody E = plannedBodies rt courses F
           \<and> calls (syncLoop rt courses m F st)
               = calls st @ map OpInsert (plannedBodies rt courses F)
           \<and> failure (syncLoop rt courses m F st) = plannedFailure rt courses F
           \<and> (distinct (map evId (calendar st)) \<longrightarrow> distinct (map evId (calendar st @ E)))"
  using assms
proof (induction F arbitrary: st)
  case Nil
  then show ?case by simp
next
  case (Cons s F)
  show ?case
  proof (cases "isCancelled s")
    case True
    with Cons.prems have "syncStep rt courses m s st = st"
      by (simp add: syncStep_def)
    with Cons True show ?thesis by simp
  next
    case False
    show ?thesis
    proof (cases "eventBody rt courses s")
      case (Inl e)
      with False Cons.prems show ?thesis by (simp add: syncStep_def)
    next
      case (Inr b)
      let ?new = "\<lparr>evId = freshId (calendar st), evBody = b\<rparr>"
      let ?st = "st\<lparr>calendar := calendar st @ [?new], calls := calls st @ [OpInsert b]\<rparr>"
      from False Inr Cons.prems have step: "syncStep rt courses m s st = ?st"
        by (simp add: syncStep_def apiInsert_def)
      from Cons.prems have "\<forall>s \<in> set F. m (signature s) = None" "failure ?st = None"
        by simp_all
      from Cons.IH [OF this] obtain E where
        E: "calendar (syncLoop rt courses m F ?st) = calendar ?st @ E"
          "map evBody E = plannedBodies rt courses F"
          "calls (syncLoop rt courses m F ?st) = calls ?st @ map OpInsert (plannedBodies rt courses F)"
          "failure (syncLoop rt courses m F ?st) = plannedFailure rt courses F"
          "distinct (map evId (calendar ?st)) \<longrightarrow> distinct (map evId (calendar ?st @ E))"
        by blast
      have d: "distinct (map evId (calendar st)) \<Longrightarrow> distinct (map evId (calendar ?st))"
        using freshId_fresh [of "calendar st"] by simp
      have "calendar (syncLoop rt courses m (s # F) st) = calendar st @ (?new # E)"
        using step E(1) Cons.prems by simp
      moreover have "map evBody (?new # E) = plannedBodies rt courses (s # F)"
        using E(2) False Inr by simp
      moreover have "calls (syncLoop rt courses m (s # F) st)
          = calls st @ map OpInsert (plannedBodies rt courses (s # F))"
        using step E(3) False Inr Cons.prems by simp
      moreover have "failure (syncLoop rt courses m (s # F) st) = plannedFailure rt courses (s # F)"
        using step E(4) False Inr Cons.prems by simp
      moreover have "distinct (map evId (calendar st))
          \<longrightarrow> distinct (map evId (calendar st @ (?new # E)))"
        using d E(5) by simp
      ultimately show ?thesis by blast
    qed
  qed
qed








lemma run_shared:
  "syncToCalendar exRuntime [exSession ''DT'' ''1'', exCancelled ''DT'' ''2''] exCourses []
     = \<lparr>calendar = [\<lparr>evId = 1, evBody = exBody ''1''\<rparr>],
        calls = [OpInsert (exBody ''1'')], failure = None\<rparr>"
  "secondRun exRuntime exLater [exSession ''DT'' ''1'', exCancelled ''DT'' ''2''] exCourses []
     = \<lparr>calendar = [],
        calls = [OpUpdate 1 (exBody ''1''), OpDelete 1], failure = None\<rparr>"
  by code_simp+


lemma run_two_listed:
  "syncToCalendar exRuntime [exCancelled ''GT'' ''2''] exCourses [exEvent 7 ''GT'', exEvent 8 ''GT'']
     = \<lparr>calendar = [exEvent 7 ''GT''], calls = [OpDelete 8], failure = None\<rparr>"
  "secondRun exRuntime exLater [exCancelled ''GT'' ''2''] exCourses
       [exEvent 7 ''GT'', exEvent 8 ''GT'']
     = \<lparr>calendar = [], calls = [OpDelete 7], failure = None\<rparr>"
  by code_simp+




lemma run_delete:
  "syncToCalendar exRuntime [exSession ''DT'' ''1'', exCancelled ''GT'' ''2''] exCourses
       [exOther 7, exEvent 8 ''GT'']
     = \<lparr>calendar = [exOther 7, \<lparr>evId = 9, evBody = exBody ''1''\<rparr>],
        calls = [OpInsert (exBody ''1''), OpDelete 8], failure = None\<rparr>"
  by code_simp


lemma syncStep_cancelled_counts:
  "isCancelled s \<Longrightarrow>
     insertCount (syncStep rt courses m s st) = insertCount st
   \<and> updateCount (syncStep rt courses m s st) = updateCount st"
  by (auto simp: syncStep_def insertCount_def updateCount_def apiDelete_def
           split: option.splits)

lemma empty_run:
  "\<exists>E. calendar (syncToCalendar rt classes courses []) = E
       \<and> map evBody E = plannedBodies rt courses (futureClasses rt classes)
       \<and> calls (syncToCalendar rt classes courses [])
           = map OpInsert (plannedBodies rt courses (futureClasses rt classes))"
  using syncLoop_inserts
          [of "futureClasses rt classes" "existingMap []"
              "\<lparr>calendar = [], calls = [], failure = None\<rparr>" rt courses]
  by (auto simp: syncToCalendar_def existingMap_def apiList_def)

text \<open>Where the calls of a run come from, and that a run that completes has made them.\<close>

lemma syncStep_calls:
  "c \<in> set (calls (syncStep rt courses m s st)) \<Longrightarrow>
     c \<in> set (calls st)
   \<or> (isCancelled s \<and> (\<exists>i. m (signature s) = Some i \<and> c = OpDelete i))
   \<or> (\<not> isCancelled s \<and> (\<exists>b. eventBody rt courses s = Inr b
                               \<and> (c = OpInsert b \<or> (\<exists>i. c = OpUpdate i b))))"
  by (auto simp: syncStep_def Let_def split: if_splits option.splits sum.splits)

lemma syncLoop_calls:
  "c \<in> set (calls (syncLoop rt courses m F st)) \<Longrightarrow>
     c \<in> set (calls st)
   \<or> (\<exists>s \<in> set F. isCancelled s \<and> (\<exists>i. m (signature s) = Some i \<and> c = OpDelete i))
   \<or> (\<exists>s \<in> set F. \<exists>b. \<not> isCancelled s \<and> eventBody rt courses s = Inr b
                        \<and> (c = OpInsert b \<or> (\<exists>i. c = OpUpdate i b)))"
proof (induction F arbitrary: st)
  case Nil
  then show ?case by simp
next
  case (Cons s F)
  let ?st = "syncStep rt courses m s st"
  from Cons.prems have "c \<in> set (calls ?st) \<or> c \<in> set (calls (syncLoop rt courses m F ?st))"
    by (simp add: Let_def split: if_splits)
  then have "c \<in> set (calls ?st)
      \<or> (\<exists>s \<in> set F. isCancelled s \<and> (\<exists>i. m (signature s) = Some i \<and> c = OpDelete i))
      \<or> (\<exists>s \<in> set F. \<exists>b. \<not> isCancelled s \<and> eventBody rt courses s = Inr b
                        \<and> (c = OpInsert b \<or> (\<exists>i. c = OpUpdate i b)))"
    using Cons.IH [of ?st] by blast
  with syncStep_calls [of c rt courses m s st] show ?case
    by auto
qed

lemma syncStep_calls_mono: "set (calls st) \<subseteq> set (calls (syncStep rt courses m s st))"
  by (auto simp: syncStep_def Let_def split: option.splits sum.splits)

lemma syncLoop_calls_mono: "set (calls st) \<subseteq> set (calls (syncLoop rt courses m F st))"
proof (induction F arbitrary: st)
  case Nil
  show ?case by simp
next
  case (Cons s F)
  have "set (calls st) \<subseteq> set (calls (syncStep rt courses m s st))"
    by (rule syncStep_calls_mono)
  also have "\<dots> \<subseteq> set (calls (syncLoop rt courses m (s # F) st))"
    using Cons.IH [of "syncStep rt courses m s st"] by (simp add: Let_def)
  finally show ?case .
qed

lemma syncStep_deleted:
  "isCancelled s \<Longrightarrow> m (signature s) = Some i \<Longrightarrow> failure (syncStep rt courses m s st) = None
     \<Longrightarrow> OpDelete i \<in> set (calls (syncStep rt courses m s st))"
  by (auto simp: syncStep_def Let_def split: sum.splits)

lemma syncLoop_deleted:
  "failure (syncLoop rt courses m F st) = None \<Longrightarrow> s \<in> set F \<Longrightarrow> isCancelled s
     \<Longrightarrow> m (signature s) = Some i \<Longrightarrow> OpDelete i \<in> set (calls (syncLoop rt courses m F st))"
proof (induction F arbitrary: st)
  case Nil
  then show ?case by simp
next
  case (Cons a F)
  let ?st = "syncStep rt courses m a st"
  from Cons.prems(1) have f: "failure ?st = None"
    and loop: "syncLoop rt courses m (a # F) st = syncLoop rt courses m F ?st"
    by (auto simp: Let_def split: if_splits)
  show ?case
  proof (cases "s = a")
    case True
    with Cons.prems f have "OpDelete i \<in> set (calls ?st)"
      by (simp add: syncStep_deleted)
    with syncLoop_calls_mono [of ?st rt courses m F] show ?thesis
      unfolding loop by blast
  next
    case False
    with Cons.prems have "s \<in> set F" by simp
    from Cons.IH [OF _ this Cons.prems(3,4), of ?st] Cons.prems(1)
    show ?thesis unfolding loop by simp
  qed
qed

lemma apiList_subset: "set (apiList t cal) \<subseteq> set cal"
  using set_take_subset [of maxResults "filter (visible t) cal"] by (auto simp: apiList_def)

text \<open>
  C6, amended.  The step of the loop for a cancelled session makes no insert and no update
  call; when the listing has no event under the signature of the session the step does
  nothing, and when it has some, the step deletes the last of them (if it is still in
  the calendar).  A run whose only future session is cancelled leaves the calendar as it
  found it when the listing has no event under the signature, and without the last
  listed event under the signature otherwise.  A run that completes has made that delete
  call for every cancelled future session with a listed signature; and every call of a
  run is such a delete, or the insert or update of the event of a future session that is
  not cancelled.  A run against the empty calendar makes no update call, every call it
  makes is the insert of the event of a future session that is not cancelled, and every
  event it leaves carries the signature of such a session; so it leaves no event with
  the signature of a cancelled session, unless a future session that is not cancelled
  has the same signature.
\<close>

theorem syncToCalendar_cancelled:
  "(isCancelled s \<longrightarrow>
       insertCount (syncStep rt courses (existingMap L) s st) = insertCount st
     \<and> updateCount (syncStep rt courses (existingMap L) s st) = updateCount st
     \<and> (filter (hasSig (signature s)) L = []
          \<longrightarrow> syncStep rt courses (existingMap L) s st = st)
     \<and> (filter (hasSig (signature s)) L \<noteq> []
          \<and> evId (last (filter (hasSig (signature s)) L)) \<in> set (map evId (calendar st))
          \<longrightarrow> syncStep rt courses (existingMap L) s st
                = st\<lparr>calendar := filter (\<lambda>e. evId e \<noteq> evId (last (filter (hasSig (signature s)) L)))
                                     (calendar st),
                     calls := calls st
                                @ [OpDelete (evId (last (filter (hasSig (signature s)) L)))]\<rparr>))
   \<and> (isCancelled s \<and> futureClasses rt classes = [s]
        \<longrightarrow> syncToCalendar rt classes courses cal
              = (if filter (hasSig (signature s)) (apiList (nowTime rt) cal) = []
                 then \<lparr>calendar = cal, calls = [], failure = None\<rparr>
                 else \<lparr>calendar = filter (\<lambda>e. evId e \<noteq> evId (last (filter (hasSig (signature s))
                                                              (apiList (nowTime rt) cal)))) cal,
                       calls = [OpDelete (evId (last (filter (hasSig (signature s))
                                                       (apiList (nowTime rt) cal))))],
                       failure = None\<rparr>))
   \<and> (isCancelled s \<and> s \<in> set (futureClasses rt classes)
        \<and> failure (syncToCalendar rt classes courses cal) = None
        \<and> filter (hasSig (signature s)) (apiList (nowTime rt) cal) \<noteq> []
       \<longrightarrow> OpDelete (evId (last (filter (hasSig (signature s)) (apiList (nowTime rt) cal))))
             \<in> set (calls (syncToCalendar rt classes courses cal)))
   \<and> (\<forall>c \<in> set (calls (syncToCalendar rt classes courses cal)).
         (\<exists>s' \<in> set (futureClasses rt classes).
             isCancelled s' \<and> filter (hasSig (signature s')) (apiList (nowTime rt) cal) \<noteq> []
           \<and> c = OpDelete (evId (last (filter (hasSig (signature s'))
                                         (apiList (nowTime rt) cal)))))
       \<or> (\<exists>s' \<in> set (futureClasses rt classes). \<exists>b.
             \<not> isCancelled s' \<and> eventBody rt courses s' = Inr b
           \<and> (c = OpInsert b \<or> (\<exists>i. c = OpUpdate i b))))
   \<and> updateCount (syncToCalendar rt classes courses []) = 0
   \<and> (\<forall>c \<in> set (calls (syncToCalendar rt classes courses [])).
         \<exists>s' \<in> set (futureClasses rt classes). \<exists>b.
            \<not> isCancelled s' \<and> eventBody rt courses s' = Inr b \<and> c = OpInsert b)
   \<and> (\<forall>e \<in> set (calendar (syncToCalendar rt classes courses [])).
         \<exists>s' \<in> set (futureClasses rt classes).
            \<not> isCancelled s' \<and> evSignature (evBody e) = Some (signature s'))
   \<and> (isCancelled s
        \<and> (\<forall>s' \<in> set (futureClasses rt classes).
              \<not> isCancelled s' \<longrightarrow> signature s' \<noteq> signature s)
       \<longrightarrow> (\<forall>e \<in> set (calendar (syncToCalendar rt classes courses [])).
              evSignature (evBody e) \<noteq> Some (signature s)))"
proof -
  let ?F = "futureClasses rt classes"
  let ?run = "syncToCalendar rt classes courses []"
  let ?L = "apiList (nowTime rt) cal"
  let ?init = "\<lparr>calendar = cal, calls = [], failure = None\<rparr>"
  have skip: "syncStep rt courses (existingMap K) s u = u"
    if "isCancelled s" "filter (hasSig (signature s)) K = []" for K u
    using that existingMap_missing [of s K] by (simp add: syncStep_def)
  have del: "syncStep rt courses (existingMap K) s u
       = u\<lparr>calendar := filter (\<lambda>e. evId e \<noteq> evId (last (filter (hasSig (signature s)) K)))
                          (calendar u),
           calls := calls u @ [OpDelete (evId (last (filter (hasSig (signature s)) K)))]\<rparr>"
    if "isCancelled s" "filter (hasSig (signature s)) K \<noteq> []"
      "evId (last (filter (hasSig (signature s)) K)) \<in> set (map evId (calendar u))" for K u
    using that existingMap_found [of s K] by (simp add: syncStep_def apiDelete_def)
  have step: "isCancelled s \<longrightarrow>
       insertCount (syncStep rt courses (existingMap L) s st) = insertCount st
     \<and> updateCount (syncStep rt courses (existingMap L) s st) = updateCount st
     \<and> (filter (hasSig (signature s)) L = []
          \<longrightarrow> syncStep rt courses (existingMap L) s st = st)
     \<and> (filter (hasSig (signature s)) L \<noteq> []
          \<and> evId (last (filter (hasSig (signature s)) L)) \<in> set (map evId (calendar st))
          \<longrightarrow> syncStep rt courses (existingMap L) s st
                = st\<lparr>calendar := filter (\<lambda>e. evId e \<noteq> evId (last (filter (hasSig (signature s)) L)))
                                     (calendar st),
                     calls := calls st
                                @ [OpDelete (evId (last (filter (hasSig (signature s)) L)))]\<rparr>)"
    using syncStep_cancelled_counts [of s rt courses "existingMap L" st] skip [of L st]
      del [of L st]
    by blast
  have alone: "syncToCalendar rt classes courses cal
              = (if filter (hasSig (signature s)) ?L = []
                 then ?init
                 else \<lparr>calendar = filter (\<lambda>e. evId e \<noteq> evId (last (filter (hasSig (signature s)) ?L)))
                                    cal,
                       calls = [OpDelete (evId (last (filter (hasSig (signature s)) ?L)))],
                       failure = None\<rparr>)"
    if c: "isCancelled s \<and> ?F = [s]"
  proof (cases "filter (hasSig (signature s)) ?L = []")
    case True
    with c skip [of ?L ?init] show ?thesis
      by (simp add: syncToCalendar_def)
  next
    case False
    then have "last (filter (hasSig (signature s)) ?L) \<in> set (filter (hasSig (signature s)) ?L)"
      by (rule last_in_set)
    with apiList_subset [of "nowTime rt" cal]
    have "evId (last (filter (hasSig (signature s)) ?L)) \<in> set (map evId (calendar ?init))"
      by auto
    with c False del [of ?L ?init] show ?thesis
      by (simp add: syncToCalendar_def)
  qed
  have made: "OpDelete (evId (last (filter (hasSig (signature s)) ?L)))
             \<in> set (calls (syncToCalendar rt classes courses cal))"
    if h: "isCancelled s \<and> s \<in> set ?F \<and> failure (syncToCalendar rt classes courses cal) = None
        \<and> filter (hasSig (signature s)) ?L \<noteq> []"
  proof -
    from h have "existingMap ?L (signature s)
                   = Some (evId (last (filter (hasSig (signature s)) ?L)))"
      by (simp add: existingMap_found)
    with h syncLoop_deleted [of rt courses "existingMap ?L" ?F ?init s]
    show ?thesis by (simp add: syncToCalendar_def)
  qed
  have origin: "\<forall>c \<in> set (calls (syncToCalendar rt classes courses cal)).
         (\<exists>s' \<in> set ?F.
             isCancelled s' \<and> filter (hasSig (signature s')) ?L \<noteq> []
           \<and> c = OpDelete (evId (last (filter (hasSig (signature s')) ?L))))
       \<or> (\<exists>s' \<in> set ?F. \<exists>b.
             \<not> isCancelled s' \<and> eventBody rt courses s' = Inr b
           \<and> (c = OpInsert b \<or> (\<exists>i. c = OpUpdate i b)))"
  proof
    fix c
    assume "c \<in> set (calls (syncToCalendar rt classes courses cal))"
    then have "c \<in> set (calls (syncLoop rt courses (existingMap ?L) ?F ?init))"
      by (simp add: syncToCalendar_def)
    from syncLoop_calls [OF this]
    consider s' i where "s' \<in> set ?F" "isCancelled s'"
        "existingMap ?L (signature s') = Some i" "c = OpDelete i"
      | s' b where "s' \<in> set ?F" "\<not> isCancelled s'" "eventBody rt courses s' = Inr b"
        "c = OpInsert b \<or> (\<exists>i. c = OpUpdate i b)"
      by auto
    then show "(\<exists>s' \<in> set ?F.
             isCancelled s' \<and> filter (hasSig (signature s')) ?L \<noteq> []
           \<and> c = OpDelete (evId (last (filter (hasSig (signature s')) ?L))))
       \<or> (\<exists>s' \<in> set ?F. \<exists>b.
             \<not> isCancelled s' \<and> eventBody rt courses s' = Inr b
           \<and> (c = OpInsert b \<or> (\<exists>i. c = OpUpdate i b)))"
    proof cases
      case 1
      from 1(3) existingMap_missing [of s' ?L]
      have ne: "filter (hasSig (signature s')) ?L \<noteq> []" by auto
      with 1(3) existingMap_found [of s' ?L]
      have "i = evId (last (filter (hasSig (signature s')) ?L))" by simp
      with 1 ne show ?thesis by blast
    next
      case 2
      then show ?thesis by blast
    qed
  qed
  from empty_run [of rt classes courses] obtain E where
    E: "calendar ?run = E" "map evBody E = plannedBodies rt courses ?F"
      "calls ?run = map OpInsert (plannedBodies rt courses ?F)"
    by blast
  have upd: "updateCount ?run = 0"
    by (simp add: updateCount_def E(3) filter_map comp_def)
  have calls: "\<forall>c \<in> set (calls ?run). \<exists>s' \<in> set ?F. \<exists>b.
            \<not> isCancelled s' \<and> eventBody rt courses s' = Inr b \<and> c = OpInsert b"
    unfolding E(3) using plannedBodies_elem by fastforce
  have events: "\<forall>e \<in> set (calendar ?run). \<exists>s' \<in> set ?F.
            \<not> isCancelled s' \<and> evSignature (evBody e) = Some (signature s')"
  proof
    fix e
    assume "e \<in> set (calendar ?run)"
    then have "evBody e \<in> set (plannedBodies rt courses ?F)"
      using E(1,2) by (metis image_eqI set_map)
    from plannedBodies_elem [OF this] eventBody_signature
    show "\<exists>s' \<in> set ?F. \<not> isCancelled s' \<and> evSignature (evBody e) = Some (signature s')"
      by blast
  qed
  have gone: "\<forall>e \<in> set (calendar ?run). evSignature (evBody e) \<noteq> Some (signature s)"
    if "isCancelled s \<and> (\<forall>s' \<in> set ?F. \<not> isCancelled s' \<longrightarrow> signature s' \<noteq> signature s)"
    using events that by fastforce
  from step alone made origin upd calls events gone show ?thesis by blast
qed

lemma run_noon:
  "syncToCalendar (exMorning\<lparr>nowTime := exNoon\<rparr>) [exCancelled ''GT'' ''2''] exCourses
       [exEvent 7 ''GT'']
     = \<lparr>calendar = [exEvent 7 ''GT''], calls = [], failure = None\<rparr>"
  by code_simp

text \<open>
  C6, as stated, fails.  When a session that is not cancelled has the date, time slot and
  course code of a cancelled one, the run against the empty calendar leaves an event
  with the signature of the cancelled session.  When the event of a cancelled class of
  today has ended, it is not listed, and the run leaves it in the calendar.  And when two
  listed events carry the signature of a cancelled session, the run deletes the last of
  them and leaves the other.
\<close>

theorem syncToCalendar_cancelled_counterexample:
  "isCancelled (exCancelled ''DT'' ''2'')
   \<and> exCancelled ''DT'' ''2''
        \<in> set (futureClasses exRuntime [exSession ''DT'' ''1'', exCancelled ''DT'' ''2''])
   \<and> calendar (syncToCalendar exRuntime [exSession ''DT'' ''1'', exCancelled ''DT'' ''2'']
                 exCourses []) = [\<lparr>evId = 1, evBody = exBody ''1''\<rparr>]
   \<and> evSignature (exBody ''1'') = Some (signature (exCancelled ''DT'' ''2''))
   \<and> isCancelled (exCancelled ''GT'' ''2'')
   \<and> futureClasses (exMorning\<lparr>nowTime := exNoon\<rparr>) [exCancelled ''GT'' ''2'']
       = [exCancelled ''GT'' ''2'']
   \<and> hasSig (signature (exCancelled ''GT'' ''2'')) (exEvent 7 ''GT'')
   \<and> calendar (syncToCalendar (exMorning\<lparr>nowTime := exNoon\<rparr>) [exCancelled ''GT'' ''2'']
                 exCourses [exEvent 7 ''GT'']) = [exEvent 7 ''GT'']
   \<and> calendar (syncToCalendar exRuntime [exCancelled ''GT'' ''2''] exCourses
                 [exEvent 7 ''GT'', exEvent 8 ''GT'']) = [exEvent 7 ''GT'']"
proof -
  have "isCancelled (exCancelled ''DT'' ''2'')"
    "exCancelled ''DT'' ''2''
        \<in> set (futureClasses exRuntime [exSession ''DT'' ''1'', exCancelled ''DT'' ''2''])"
    "evSignature (exBody ''1'') = Some (signature (exCancelled ''DT'' ''2''))"
    "isCancelled (exCancelled ''GT'' ''2'')"
    "futureClasses (exMorning\<lparr>nowTime := exNoon\<rparr>) [exCancelled ''GT'' ''2'']
       = [exCancelled ''GT'' ''2'']"
    "hasSig (signature (exCancelled ''GT'' ''2'')) (exEvent 7 ''GT'')"
    by code_simp+
  then show ?thesis
    unfolding run_shared run_noon run_two_listed by simp
qed

lemma run_cancelled_only:
  "syncToCalendar exRuntime [exSession ''DT'' ''1'', exCancelled ''GT'' ''2''] exCourses []
     = \<lparr>calendar = [\<lparr>evId = 1, evBody = exBody ''1''\<rparr>],
        calls = [OpInsert (exBody ''1'')], failure = None\<rparr>"
  by code_simp

theorem syncToCalendar_cancelled_witness:
  "isCancelled (exCancelled ''GT'' ''2'')
   \<and> filter (hasSig (signature (exCancelled ''GT'' ''2''))) [exEvent 7 ''GT''] = [exEvent 7 ''GT'']
   \<and> syncStep exRuntime exCourses (existingMap [exEvent 7 ''GT'']) (exCancelled ''GT'' ''2'')
        \<lparr>calendar = [exEvent 7 ''GT''], calls = [], failure = None\<rparr>
       = \<lparr>calendar = [], calls = [OpDelete 7], failure = None\<rparr>
   \<and> syncStep exRuntime exCourses (existingMap []) (exCancelled ''GT'' ''2'')
        \<lparr>calendar = [], calls = [], failure = None\<rparr>
       = \<lparr>calendar = [], calls = [], failure = None\<rparr>
   \<and> futureClasses exRuntime [exCancelled ''GT'' ''2''] = [exCancelled ''GT'' ''2'']
   \<and> syncToCalendar exRuntime [exCancelled ''GT'' ''2''] exCourses [exOther 6, exEvent 7 ''GT'']
       = \<lparr>calendar = [exOther 6], calls = [OpDelete 7], failure = None\<rparr>
   \<and> OpDelete 8 \<in> set (calls (syncToCalendar exRuntime
                                 [exSession ''DT'' ''1'', exCancelled ''GT'' ''2''] exCourses
                                 [exOther 7, exEvent 8 ''GT'']))
   \<and> map (\<lambda>e. evSignature (evBody e))
        (calendar (syncToCalendar exRuntime [exSession ''DT'' ''1'', exCancelled ''GT'' ''2'']
                     exCourses []))
       = [Some (signature (exSession ''DT'' ''1''))]
   \<and> signature (exSession ''DT'' ''1'') \<noteq> signature (exCancelled ''GT'' ''2'')"
proof -
  let ?s = "exCancelled ''GT'' ''2''"
  let ?L = "[exEvent 7 ''GT'']"
  let ?st = "\<lparr>calendar = ?L, calls = [], failure = None\<rparr>"
  let ?init = "\<lparr>calendar = [], calls = [], failure = None\<rparr> :: SyncState"
  let ?classes = "[exSession ''DT'' ''1'', ?s]"
  let ?cal = "[exOther 7, exEvent 8 ''GT'']"
  have c: "isCancelled ?s" by code_simp
  have l: "filter (hasSig (signature ?s)) ?L = ?L" by code_simp
  have ne: "filter (hasSig (signature ?s)) ?L \<noteq> []
            \<and> evId (last (filter (hasSig (signature ?s)) ?L)) \<in> set (map evId (calendar ?st))"
    by code_simp
  have l0: "filter (hasSig (signature ?s)) [] = []" by simp
  have f1: "futureClasses exRuntime [?s] = [?s]" by code_simp
  have f2: "futureClasses exRuntime ?classes = ?classes" by code_simp
  have sn: "signature (exSession ''DT'' ''1'') \<noteq> signature ?s" by code_simp
  have sg: "evSignature (exBody ''1'') = Some (signature (exSession ''DT'' ''1''))" by code_simp
  \<comment> \<open>The step, with and without a listed event.\<close>
  note t = syncToCalendar_cancelled
             [where s = ?s and rt = exRuntime and courses = exCourses and L = ?L and st = ?st
                and classes = "[?s]" and cal = "[exOther 6, exEvent 7 ''GT'']"]
  note t0 = syncToCalendar_cancelled
             [where s = ?s and rt = exRuntime and courses = exCourses and L = "[]" and st = ?init
                and classes = ?classes and cal = ?cal]
  from t c ne have "syncStep exRuntime exCourses (existingMap ?L) ?s ?st
       = ?st\<lparr>calendar := filter (\<lambda>e. evId e \<noteq> evId (last (filter (hasSig (signature ?s)) ?L)))
                             (calendar ?st),
             calls := calls ?st @ [OpDelete (evId (last (filter (hasSig (signature ?s)) ?L)))]\<rparr>"
    by blast
  then have 1: "syncStep exRuntime exCourses (existingMap ?L) ?s ?st
       = \<lparr>calendar = [], calls = [OpDelete 7], failure = None\<rparr>"
    unfolding l by (simp add: exEvent_def)
  from t0 c l0 have 2: "syncStep exRuntime exCourses (existingMap []) ?s ?init = ?init"
    by blast
  \<comment> \<open>The run on the cancelled session alone.\<close>
  have a: "filter (hasSig (signature ?s)) (apiList (nowTime exRuntime) [exOther 6, exEvent 7 ''GT''])
             = [exEvent 7 ''GT'']"
    by code_simp
  from t c f1 have "syncToCalendar exRuntime [?s] exCourses [exOther 6, exEvent 7 ''GT'']
     = (if filter (hasSig (signature ?s))
              (apiList (nowTime exRuntime) [exOther 6, exEvent 7 ''GT'']) = []
        then \<lparr>calendar = [exOther 6, exEvent 7 ''GT''], calls = [], failure = None\<rparr>
        else \<lparr>calendar = filter (\<lambda>e. evId e \<noteq> evId (last (filter (hasSig (signature ?s))
                 (apiList (nowTime exRuntime) [exOther 6, exEvent 7 ''GT''])))) 
                 [exOther 6, exEvent 7 ''GT''],
              calls = [OpDelete (evId (last (filter (hasSig (signature ?s))
                 (apiList (nowTime exRuntime) [exOther 6, exEvent 7 ''GT''])))) ],
              failure = None\<rparr>)"
    by blast
  then have 3: "syncToCalendar exRuntime [?s] exCourses [exOther 6, exEvent 7 ''GT'']
       = \<lparr>calendar = [exOther 6], calls = [OpDelete 7], failure = None\<rparr>"
    unfolding a by (simp add: exEvent_def exOther_def)
  \<comment> \<open>The run with a session that is not cancelled.\<close>
  have b: "filter (hasSig (signature ?s)) (apiList (nowTime exRuntime) ?cal) = [exEvent 8 ''GT'']"
    by code_simp
  have "isCancelled ?s \<and> ?s \<in> set (futureClasses exRuntime ?classes)
        \<and> failure (syncToCalendar exRuntime ?classes exCourses ?cal) = None
        \<and> filter (hasSig (signature ?s)) (apiList (nowTime exRuntime) ?cal) \<noteq> []"
    unfolding run_delete b f2 using c by simp
  with t0 have "OpDelete (evId (last (filter (hasSig (signature ?s))
                                         (apiList (nowTime exRuntime) ?cal))))
             \<in> set (calls (syncToCalendar exRuntime ?classes exCourses ?cal))"
    by blast
  then have 4: "OpDelete 8 \<in> set (calls (syncToCalendar exRuntime ?classes exCourses ?cal))"
    unfolding b by (simp add: exEvent_def)
  \<comment> \<open>The run against the empty calendar.\<close>
  have 5: "map (\<lambda>e. evSignature (evBody e))
        (calendar (syncToCalendar exRuntime ?classes exCourses []))
       = [Some (signature (exSession ''DT'' ''1''))]"
    by (simp only: run_cancelled_only SyncState.select_convs) (simp add: sg)
  have "isCancelled ?s \<and> (\<forall>s' \<in> set (futureClasses exRuntime ?classes).
            \<not> isCancelled s' \<longrightarrow> signature s' \<noteq> signature ?s)"
    unfolding f2 using c sn by (simp add: exSession_def exCancelled_def)
  with t0 have "\<forall>e \<in> set (calendar (syncToCalendar exRuntime ?classes exCourses [])).
                  evSignature (evBody e) \<noteq> Some (signature ?s)"
    by blast
  from c l 1 2 f1 3 4 5 sn show ?thesis by simp
qed

end
